theory Spec2Isabelle
  imports Complex_Main "HOL-Library.Multiset"
begin

section \<open>JavaScript strings\<close>

text \<open>
  A JavaScript string is a sequence of UTF-16 code units. The program's literals contain
  accented letters, its regular expressions use the classes \<^verbatim>\<open>\s\<close>, \<^verbatim>\<open>\d\<close>, \<^verbatim>\<open>\w\<close>, and
  \<^verbatim>\<open>removeEmojis\<close> reads surrogate pairs, so a string is modelled as the list of its code
  units. \<open>js\<close> writes an ASCII literal; an accented letter is written as its code unit
  (all of them are single code units in the source), and as \<^verbatim>\<open>?\<close> where the source is
  quoted.
\<close>

type_synonym jsstring = "nat list"

definition js :: "string \<Rightarrow> jsstring" where
  "js s = map of_char s"

text \<open>Template literals print an undefined value as the word \<^verbatim>\<open>undefined\<close>.\<close>

fun template :: "jsstring option \<Rightarrow> jsstring" where
  "template None = js ''undefined''"
| "template (Some s) = s"

text \<open>\<^verbatim>\<open>Array.prototype.join\<close>.\<close>

fun join :: "jsstring \<Rightarrow> jsstring list \<Rightarrow> jsstring" where
  "join sep [] = []"
| "join sep [x] = x"
| "join sep (x # y # ys) = x @ sep @ join sep (y # ys)"

text \<open>
  The character classes of the regular expressions in the source: \<^verbatim>\<open>\d\<close> is \<open>0-9\<close>,
  \<^verbatim>\<open>\w\<close> is \<open>A-Za-z0-9_\<close>, \<^verbatim>\<open>[A-Z]\<close> the ASCII capitals, and \<^verbatim>\<open>\s\<close> the white space and
  line terminators of ECMAScript, which are also what \<^verbatim>\<open>String.prototype.trim\<close> removes.
\<close>

definition isDigit :: "nat \<Rightarrow> bool" where
  "isDigit c = (48 \<le> c \<and> c \<le> 57)"

definition isUpper :: "nat \<Rightarrow> bool" where
  "isUpper c = (65 \<le> c \<and> c \<le> 90)"

definition isWord :: "nat \<Rightarrow> bool" where
  "isWord c = (isUpper c \<or> (97 \<le> c \<and> c \<le> 122) \<or> isDigit c \<or> c = 95)"

definition isSpace :: "nat \<Rightarrow> bool" where
  "isSpace c = ((9 \<le> c \<and> c \<le> 13) \<or> c = 32 \<or> c = 0xA0 \<or> c = 0x1680 \<or>
     (0x2000 \<le> c \<and> c \<le> 0x200A) \<or> c = 0x2028 \<or> c = 0x2029 \<or> c = 0x202F \<or>
     c = 0x205F \<or> c = 0x3000 \<or> c = 0xFEFF)"

definition trim :: "jsstring \<Rightarrow> jsstring" where
  "trim s = rev (dropWhile isSpace (rev (dropWhile isSpace s)))"


section \<open>The message store\<close>

text \<open>
  \<^verbatim>\<open>messagesDb\<close> is a NeDB datastore. A document of it is the object that
  \<^verbatim>\<open>updateMessageHistory\<close> inserts, with the \<^verbatim>\<open>_id\<close> the store adds. The sender is what the
  caller passes: \<^verbatim>\<open>handleAudioMessage\<close> and \<^verbatim>\<open>handleImageMessage\<close> pass \<^verbatim>\<open>userConfig.botName\<close>,
  which \<^verbatim>\<open>getConfig\<close> can leave undefined, so the field is optional.
\<close>

datatype msg_type = User | Bot

record message =
  msg_id :: nat
  msg_chatId :: jsstring
  msg_sender :: "jsstring option"
  msg_content :: jsstring
  msg_timestamp :: nat
  msg_kind :: msg_type

text \<open>
  The store is the list of its documents, in the order in which a query enumerates them.
  NeDB enumerates in the order of the \<^verbatim>\<open>_id\<close>, a random string that it draws when a document
  is inserted and that no other document has. Where the new document stands among the
  others is therefore not decided by the program: it is an argument \<open>place\<close> of the
  insertion, as the value of the clock is, and the order of the other documents stays as
  it is. The \<^verbatim>\<open>_id\<close> itself only tells documents apart and is a number here.
  The operations below are the ones the program calls, with the behaviour
  of NeDB's cursor (\<^verbatim>\<open>lib/cursor.js\<close>): the matching documents are collected, sorted with
  \<^verbatim>\<open>Array.prototype.sort\<close> (stable) on the comparison of the sort key times the direction,
  and then \<^verbatim>\<open>res.slice(skip, skip + limit)\<close> is taken with
  \<^verbatim>\<open>limit = self._limit || res.length\<close> and \<^verbatim>\<open>skip = self._skip || 0\<close>: a limit of \<open>0\<close> is
  no limit. Failures of the store (the \<^verbatim>\<open>err\<close> of a callback) are input/output errors;
  the model is the store that works.
\<close>

definition new_id :: "message list \<Rightarrow> nat" where
  "new_id db = Suc (foldr max (map msg_id db) 0)"

definition db_insert :: "nat \<Rightarrow> message \<Rightarrow> message list \<Rightarrow> message list" where
  "db_insert place doc db = take place db @ [doc\<lparr>msg_id := new_id db\<rparr>] @ drop place db"

text \<open>The query \<^verbatim>\<open>{ chatId: chatId, type: { $in: ['user', 'bot'] } }\<close>.\<close>

definition chat_query :: "jsstring \<Rightarrow> message \<Rightarrow> bool" where
  "chat_query chatId doc = (msg_chatId doc = chatId \<and> msg_kind doc \<in> {User, Bot})"

definition db_find :: "(message \<Rightarrow> bool) \<Rightarrow> message list \<Rightarrow> message list" where
  "db_find q db = filter q db"

text \<open>\<^verbatim>\<open>.sort({ timestamp: -1 })\<close>: newest first, equal timestamps in the order found.\<close>

definition sort_timestamp_desc :: "message list \<Rightarrow> message list" where
  "sort_timestamp_desc docs = sort_key (\<lambda>d. - int (msg_timestamp d)) docs"

definition cursor_skip :: "nat \<Rightarrow> message list \<Rightarrow> message list" where
  "cursor_skip n docs = drop n docs"

definition cursor_limit :: "nat \<Rightarrow> message list \<Rightarrow> message list" where
  "cursor_limit n docs = (if n = 0 then docs else take n docs)"

text \<open>\<^verbatim>\<open>remove({ _id: { $in: ids } }, { multi: true })\<close>.\<close>

definition db_remove_ids :: "nat list \<Rightarrow> message list \<Rightarrow> message list" where
  "db_remove_ids ids db = filter (\<lambda>d. msg_id d \<notin> set ids) db"

text \<open>\<^verbatim>\<open>remove(query, { multi: true })\<close>.\<close>

definition db_remove :: "(message \<Rightarrow> bool) \<Rightarrow> message list \<Rightarrow> message list" where
  "db_remove q db = filter (\<lambda>d. \<not> q d) db"

text \<open>No two documents of a store share an \<^verbatim>\<open>_id\<close>.\<close>

definition wf_store :: "message list \<Rightarrow> bool" where
  "wf_store db = distinct (map msg_id db)"


section \<open>History manager\<close>

text \<open>The line \<^verbatim>\<open>`${doc.sender}: ${doc.content}`\<close>.\<close>

definition render :: "message \<Rightarrow> jsstring" where
  "render doc = template (msg_sender doc) @ js '': '' @ msg_content doc"

text \<open>
  \<^verbatim>\<open>getMessageHistory(chatId, limit = MAX_HISTORY)\<close>. \<open>history_docs\<close> is the array \<^verbatim>\<open>docs.reverse()\<close>
  that the callback maps to lines.
\<close>

definition history_docs :: "message list \<Rightarrow> jsstring \<Rightarrow> nat \<Rightarrow> message list" where
  "history_docs db chatId limit =
     rev (cursor_limit (limit * 2) (sort_timestamp_desc (db_find (chat_query chatId) db)))"

definition getMessageHistory :: "message list \<Rightarrow> jsstring \<Rightarrow> nat \<Rightarrow> jsstring list" where
  "getMessageHistory db chatId limit = map render (history_docs db chatId limit)"

text \<open>
  \<^verbatim>\<open>updateMessageHistory(chatId, sender, message, isBot = false)\<close>, with the pair limit
  \<^verbatim>\<open>MAX_HISTORY\<close> (a constant read from the environment, \<open>500\<close> by default) and the value
  \<open>now\<close> of \<^verbatim>\<open>Date.now()\<close> and the place of the new document in the store as arguments.
  \<open>new_doc\<close> is the object passed to \<^verbatim>\<open>insert\<close>, \<open>inserted\<close> the store after the insert,
  before the trim, and \<open>docsToRemove\<close> what the second query returns.
\<close>

definition new_doc :: "nat \<Rightarrow> jsstring \<Rightarrow> jsstring option \<Rightarrow> jsstring \<Rightarrow> bool \<Rightarrow> message" where
  "new_doc now chatId sender message isBot =
     \<lparr>msg_id = 0, msg_chatId = chatId, msg_sender = sender, msg_content = message,
      msg_timestamp = now, msg_kind = (if isBot then Bot else User)\<rparr>"

definition inserted ::
  "nat \<Rightarrow> nat \<Rightarrow> message list \<Rightarrow> jsstring \<Rightarrow> jsstring option \<Rightarrow> jsstring \<Rightarrow> bool \<Rightarrow>
   message list" where
  "inserted now place db chatId sender message isBot =
     db_insert place (new_doc now chatId sender message isBot) db"

definition docsToRemove :: "nat \<Rightarrow> jsstring \<Rightarrow> message list \<Rightarrow> message list" where
  "docsToRemove MAX_HISTORY chatId db =
     cursor_skip (MAX_HISTORY * 2) (sort_timestamp_desc (db_find (chat_query chatId) db))"

definition updateMessageHistory ::
  "nat \<Rightarrow> nat \<Rightarrow> nat \<Rightarrow> message list \<Rightarrow> jsstring \<Rightarrow> jsstring option \<Rightarrow> jsstring \<Rightarrow> bool \<Rightarrow>
   message list" where
  "updateMessageHistory MAX_HISTORY now place db chatId sender message isBot =
     (let db1 = inserted now place db chatId sender message isBot
      in db_remove_ids (map msg_id (docsToRemove MAX_HISTORY chatId db1)) db1)"

text \<open>\<^verbatim>\<open>resetHistory(chatId)\<close>.\<close>

definition resetHistory :: "message list \<Rightarrow> jsstring \<Rightarrow> message list" where
  "resetHistory db chatId = db_remove (chat_query chatId) db"

text \<open>
  A sequence of appends: each one with its clock value, the place of its document and
  its arguments.
\<close>

record append_call =
  app_now :: nat
  app_place :: nat
  app_chatId :: jsstring
  app_sender :: "jsstring option"
  app_content :: jsstring
  app_isBot :: bool

definition append_step :: "nat \<Rightarrow> append_call \<Rightarrow> message list \<Rightarrow> message list" where
  "append_step MAX_HISTORY a db =
     updateMessageHistory MAX_HISTORY (app_now a) (app_place a) db (app_chatId a)
       (app_sender a) (app_content a) (app_isBot a)"

definition appends :: "nat \<Rightarrow> append_call list \<Rightarrow> message list \<Rightarrow> message list" where
  "appends MAX_HISTORY calls db = fold (append_step MAX_HISTORY) calls db"

text \<open>
  The two appends of the scenario \<^verbatim>\<open>("chat1","alice","hi",false)\<close> then
  \<^verbatim>\<open>("chat1","Amelie","hello",true)\<close>, made at the times \<open>t1\<close> and \<open>t2\<close>, their documents
  going to the places \<open>p1\<close> and \<open>p2\<close>.
\<close>

definition scenario_appends :: "nat \<Rightarrow> nat \<Rightarrow> nat \<Rightarrow> nat \<Rightarrow> append_call list" where
  "scenario_appends t1 p1 t2 p2 =
     [\<lparr>app_now = t1, app_place = p1, app_chatId = js ''chat1'',
        app_sender = Some (js ''alice''), app_content = js ''hi'', app_isBot = False\<rparr>,
      \<lparr>app_now = t2, app_place = p2, app_chatId = js ''chat1'',
        app_sender = Some (js ''Amelie''), app_content = js ''hello'', app_isBot = True\<rparr>]"


section \<open>Regular expressions\<close>

text \<open>
  The fragment of ECMAScript regular expressions that the program uses: a literal, a
  greedy \<^verbatim>\<open>*\<close> or \<^verbatim>\<open>+\<close> on a character class, sequence and alternative. \<open>rx_match r s\<close>
  lists what is left of \<open>s\<close> after each way of matching \<open>r\<close> at its start, in the order
  in which the backtracking matcher tries them (a greedy quantifier the longest first, an
  alternative left to right); the matcher's result is the first one.
\<close>

datatype regex =
    Lit jsstring
  | Many "nat \<Rightarrow> bool"
  | Many1 "nat \<Rightarrow> bool"
  | Seq regex regex
  | Alt regex regex

fun rx_match :: "regex \<Rightarrow> jsstring \<Rightarrow> jsstring list" where
  "rx_match (Lit l) s = (if take (length l) s = l then [drop (length l) s] else [])"
| "rx_match (Many p) s = map (\<lambda>k. drop k s) (rev [0..<Suc (length (takeWhile p s))])"
| "rx_match (Many1 p) s = map (\<lambda>k. drop k s) (rev [1..<Suc (length (takeWhile p s))])"
| "rx_match (Seq a b) s = concat (map (rx_match b) (rx_match a s))"
| "rx_match (Alt a b) s = rx_match a s @ rx_match b s"

text \<open>\<^verbatim>\<open>s.replace(/^r/, '')\<close>: the expression is tried at the start of the string only.\<close>

definition replace_anchored :: "regex \<Rightarrow> jsstring \<Rightarrow> jsstring" where
  "replace_anchored r s = (case rx_match r s of [] \<Rightarrow> s | rest # _ \<Rightarrow> rest)"

text \<open>
  \<^verbatim>\<open>s.split(/r/)[0]\<close>, for an expression that matches no empty string: what stands before
  the leftmost match, or all of \<open>s\<close>.
\<close>

fun split_first :: "regex \<Rightarrow> jsstring \<Rightarrow> jsstring" where
  "split_first r [] = []"
| "split_first r (c # cs) = (if rx_match r (c # cs) \<noteq> [] then [] else c # split_first r cs)"

text \<open>Whether the expression matches somewhere in the string.\<close>

fun has_match :: "regex \<Rightarrow> jsstring \<Rightarrow> bool" where
  "has_match r [] = False"
| "has_match r (c # cs) = (rx_match r (c # cs) \<noteq> [] \<or> has_match r cs)"

text \<open>
  \<^verbatim>\<open>s.replace(/r/g, rep)\<close>, for an expression that matches no empty string. \<open>skip\<close> counts
  the code units of the current match that are still to be passed over.
\<close>

fun replace_all_from :: "regex \<Rightarrow> jsstring \<Rightarrow> nat \<Rightarrow> jsstring \<Rightarrow> jsstring" where
  "replace_all_from r rep skip [] = []"
| "replace_all_from r rep (Suc skip) (c # cs) = replace_all_from r rep skip cs"
| "replace_all_from r rep 0 (c # cs) =
     (case rx_match r (c # cs) of
        [] \<Rightarrow> c # replace_all_from r rep 0 cs
      | rest # _ \<Rightarrow> rep @ replace_all_from r rep (length cs - length rest) cs)"

definition replace_all :: "regex \<Rightarrow> jsstring \<Rightarrow> jsstring \<Rightarrow> jsstring" where
  "replace_all r rep s = replace_all_from r rep 0 s"


section \<open>Sanitizing a reply\<close>

text \<open>\<^verbatim>\<open>/^\[Import?ncia: \d+\.\d+\]\s*/\<close>, the \<^verbatim>\<open>?\<close> being \<open>0xE2\<close>.\<close>

definition re_importance :: regex where
  "re_importance =
     Seq (Lit (js ''[Import'' @ [0xE2] @ js ''ncia: ''))
      (Seq (Many1 isDigit) (Seq (Lit (js ''.'')) (Seq (Many1 isDigit)
        (Seq (Lit (js '']'')) (Many isSpace)))))"

text \<open>\<^verbatim>\<open>/^\[User\d+\]:\s*/\<close>\<close>

definition re_user :: regex where
  "re_user = Seq (Lit (js ''[User'')) (Seq (Many1 isDigit) (Seq (Lit (js '']:'')) (Many isSpace)))"

text \<open>\<^verbatim>\<open>/Usu?rio:|Human:|[A-Z]+:/\<close>, the \<^verbatim>\<open>?\<close> being \<open>0xE1\<close>.\<close>

definition re_speaker :: regex where
  "re_speaker =
     Alt (Lit (js ''Usu'' @ [0xE1] @ js ''rio:''))
      (Alt (Lit (js ''Human:'')) (Seq (Many1 isUpper) (Lit (js '':''))))"

definition apology :: jsstring where
  "apology = js ''Desculpe, n'' @ [0xE3] @
     js ''o consegui gerar uma resposta adequada. Pode reformular sua pergunta?''"

text \<open>\<^verbatim>\<open>sanitizeResponse(response)\<close> of \<^verbatim>\<open>services/geminiService.js\<close>, on a string.\<close>

definition sanitizeResponse :: "jsstring \<Rightarrow> jsstring" where
  "sanitizeResponse response =
     (let sanitized = replace_anchored re_importance response;
          sanitized = replace_anchored re_user sanitized;
          sanitized = trim (split_first re_speaker sanitized)
      in if sanitized = [] then apology else sanitized)"

text \<open>The value of \<^verbatim>\<open>sanitized\<close> before the last line replaces an empty one.\<close>

definition core :: "jsstring \<Rightarrow> jsstring" where
  "core x =
     trim (split_first re_speaker (replace_anchored re_user (replace_anchored re_importance x)))"

text \<open>
  \<^verbatim>\<open>removeEmojis(text)\<close>. The expression has the flags \<^verbatim>\<open>g\<close> and \<^verbatim>\<open>u\<close>: the string is read
  code point by code point, a high surrogate followed by a low surrogate being one code
  point, and every code point of the class is removed.
\<close>

definition isHighSurrogate :: "nat \<Rightarrow> bool" where
  "isHighSurrogate c = (0xD800 \<le> c \<and> c \<le> 0xDBFF)"

definition isLowSurrogate :: "nat \<Rightarrow> bool" where
  "isLowSurrogate c = (0xDC00 \<le> c \<and> c \<le> 0xDFFF)"

fun code_points :: "jsstring \<Rightarrow> (nat \<times> jsstring) list" where
  "code_points [] = []"
| "code_points [c] = [(c, [c])]"
| "code_points (h # l # cs) =
     (if isHighSurrogate h \<and> isLowSurrogate l
      then (0x10000 + (h - 0xD800) * 0x400 + (l - 0xDC00), [h, l]) # code_points cs
      else (h, [h]) # code_points (l # cs))"

definition isEmoji :: "nat \<Rightarrow> bool" where
  "isEmoji cp =
     ((0x1F600 \<le> cp \<and> cp \<le> 0x1F64F) \<or> (0x1F300 \<le> cp \<and> cp \<le> 0x1F5FF) \<or>
      (0x1F680 \<le> cp \<and> cp \<le> 0x1F6FF) \<or> (0x1F1E0 \<le> cp \<and> cp \<le> 0x1F1FF) \<or>
      (0x2600 \<le> cp \<and> cp \<le> 0x26FF) \<or> (0x2700 \<le> cp \<and> cp \<le> 0x27BF) \<or>
      (0x1F900 \<le> cp \<and> cp \<le> 0x1F9FF) \<or> (0x1F018 \<le> cp \<and> cp \<le> 0x1F0FF) \<or>
      (0x1F100 \<le> cp \<and> cp \<le> 0x1F2FF))"

definition removeEmojis :: "jsstring \<Rightarrow> jsstring" where
  "removeEmojis text = concat (map snd (filter (\<lambda>p. \<not> isEmoji (fst p)) (code_points text)))"


section \<open>Prompt registry\<close>

text \<open>
  \<^verbatim>\<open>promptsDb\<close> holds the documents \<^verbatim>\<open>{ chatId, name, text }\<close>. \<^verbatim>\<open>findOne\<close> returns the first
  document that matches, or \<^verbatim>\<open>null\<close>; \<^verbatim>\<open>update\<close> with a whole document and
  \<^verbatim>\<open>{ upsert: true }\<close> replaces the first document that matches, or inserts the new one.
\<close>

record prompt =
  prompt_chatId :: jsstring
  prompt_name :: jsstring
  prompt_text :: jsstring

definition db_findOne :: "('a \<Rightarrow> bool) \<Rightarrow> 'a list \<Rightarrow> 'a option" where
  "db_findOne q db = find q db"

fun db_update :: "('a \<Rightarrow> bool) \<Rightarrow> ('a \<Rightarrow> 'a) \<Rightarrow> 'a \<Rightarrow> 'a list \<Rightarrow> 'a list" where
  "db_update q modify new [] = [new]"
| "db_update q modify new (d # ds) =
     (if q d then modify d # ds else d # db_update q modify new ds)"

text \<open>The query \<^verbatim>\<open>{ chatId, name }\<close>.\<close>

definition prompt_query :: "jsstring \<Rightarrow> jsstring \<Rightarrow> prompt \<Rightarrow> bool" where
  "prompt_query chatId name doc = (prompt_chatId doc = chatId \<and> prompt_name doc = name)"

text \<open>
  \<^verbatim>\<open>setSystemPrompt(chatId, name, text)\<close>; the text stored is
  \<^verbatim>\<open>`Seu nome ? ${name}. ${text}`\<close>, the \<^verbatim>\<open>?\<close> being \<open>0xE9\<close>.
\<close>

definition formattedText :: "jsstring \<Rightarrow> jsstring \<Rightarrow> jsstring" where
  "formattedText name text = js ''Seu nome '' @ [0xE9] @ js '' '' @ name @ js ''. '' @ text"

definition setSystemPrompt :: "prompt list \<Rightarrow> jsstring \<Rightarrow> jsstring \<Rightarrow> jsstring \<Rightarrow> prompt list" where
  "setSystemPrompt db chatId name text =
     (let doc = \<lparr>prompt_chatId = chatId, prompt_name = name,
                  prompt_text = formattedText name text\<rparr>
      in db_update (prompt_query chatId name) (\<lambda>_. doc) doc db)"

text \<open>\<^verbatim>\<open>getSystemPrompt(chatId, name)\<close>\<close>

definition getSystemPrompt :: "prompt list \<Rightarrow> jsstring \<Rightarrow> jsstring \<Rightarrow> prompt option" where
  "getSystemPrompt db chatId name = db_findOne (prompt_query chatId name) db"

text \<open>\<^verbatim>\<open>listSystemPrompts(chatId)\<close>\<close>

definition listSystemPrompts :: "prompt list \<Rightarrow> jsstring \<Rightarrow> prompt list" where
  "listSystemPrompts db chatId = filter (\<lambda>doc. prompt_chatId doc = chatId) db"


section \<open>Config resolver\<close>

text \<open>
  A document of \<^verbatim>\<open>configDb\<close> has the chat's id and the fields that \<^verbatim>\<open>setConfig\<close> has set
  so far. The program sets \<^verbatim>\<open>temperature\<close>, \<^verbatim>\<open>topK\<close>, \<^verbatim>\<open>topP\<close> and \<^verbatim>\<open>maxOutputTokens\<close> to
  numbers, \<^verbatim>\<open>mediaImage\<close> and \<^verbatim>\<open>mediaAudio\<close> to booleans, and \<^verbatim>\<open>activePrompt\<close> to a name or
  to \<^verbatim>\<open>null\<close>. A field that is absent is \<open>None\<close>; so is an \<^verbatim>\<open>activePrompt\<close> that is \<^verbatim>\<open>null\<close>,
  which the program only tests for truth.
\<close>

record chat_config =
  cc_chatId :: jsstring
  cc_temperature :: "real option"
  cc_topK :: "real option"
  cc_topP :: "real option"
  cc_maxOutputTokens :: "real option"
  cc_mediaImage :: "bool option"
  cc_mediaAudio :: "bool option"
  cc_activePrompt :: "jsstring option"

text \<open>The modifier \<^verbatim>\<open>{ $set: { [param]: value } }\<close>, for the parameters the program sets.\<close>

datatype config_param =
    Temperature real
  | TopK real
  | TopP real
  | MaxOutputTokens real
  | MediaImage bool
  | MediaAudio bool
  | ActivePrompt "jsstring option"

fun config_set :: "config_param \<Rightarrow> chat_config \<Rightarrow> chat_config" where
  "config_set (Temperature v) doc = doc\<lparr>cc_temperature := Some v\<rparr>"
| "config_set (TopK v) doc = doc\<lparr>cc_topK := Some v\<rparr>"
| "config_set (TopP v) doc = doc\<lparr>cc_topP := Some v\<rparr>"
| "config_set (MaxOutputTokens v) doc = doc\<lparr>cc_maxOutputTokens := Some v\<rparr>"
| "config_set (MediaImage v) doc = doc\<lparr>cc_mediaImage := Some v\<rparr>"
| "config_set (MediaAudio v) doc = doc\<lparr>cc_mediaAudio := Some v\<rparr>"
| "config_set (ActivePrompt v) doc = doc\<lparr>cc_activePrompt := v\<rparr>"

text \<open>The document \<^verbatim>\<open>{ chatId }\<close> that an upsert starts from.\<close>

definition empty_config :: "jsstring \<Rightarrow> chat_config" where
  "empty_config chatId =
     \<lparr>cc_chatId = chatId, cc_temperature = None, cc_topK = None, cc_topP = None,
      cc_maxOutputTokens = None, cc_mediaImage = None, cc_mediaAudio = None,
      cc_activePrompt = None\<rparr>"

text \<open>\<^verbatim>\<open>setConfig(chatId, param, value)\<close>\<close>

definition setConfig :: "chat_config list \<Rightarrow> jsstring \<Rightarrow> config_param \<Rightarrow> chat_config list" where
  "setConfig db chatId pv =
     db_update (\<lambda>doc. cc_chatId doc = chatId) (config_set pv)
       (config_set pv (empty_config chatId)) db"

text \<open>
  The object that \<^verbatim>\<open>getConfig\<close> resolves: \<^verbatim>\<open>{ ...defaultConfig, ...userConfig }\<close> with
  \<^verbatim>\<open>systemInstructions\<close> and \<^verbatim>\<open>botName\<close> when they are assigned.
\<close>

record config =
  temperature :: real
  topK :: real
  topP :: real
  maxOutputTokens :: real
  mediaImage :: bool
  mediaAudio :: bool
  activePrompt :: "jsstring option"
  systemInstructions :: "jsstring option"
  botName :: "jsstring option"

definition defaultConfig :: config where
  "defaultConfig =
     \<lparr>temperature = 0.9, topK = 93, topP = 0.95, maxOutputTokens = 1024,
      mediaImage = True, mediaAudio = True, activePrompt = None,
      systemInstructions = None, botName = None\<rparr>"

text \<open>
  The truth value of a string that may be undefined, and \<^verbatim>\<open>a || b\<close> on such strings: the
  empty string is false.
\<close>

fun truthy :: "jsstring option \<Rightarrow> bool" where
  "truthy None = False"
| "truthy (Some s) = (s \<noteq> [])"

fun or_else :: "jsstring option \<Rightarrow> jsstring \<Rightarrow> jsstring" where
  "or_else None d = d"
| "or_else (Some s) d = (if s = [] then d else s)"

text \<open>
  \<^verbatim>\<open>process.env.BOT_NAME || 'Amelie'\<close>; the variable of the environment is an argument.
\<close>

definition default_bot_name :: "jsstring option \<Rightarrow> jsstring" where
  "default_bot_name env_BOT_NAME = or_else env_BOT_NAME (js ''Amelie'')"

text \<open>\<^verbatim>\<open>{ ...defaultConfig, ...userConfig }\<close>\<close>

definition merge_config :: "chat_config option \<Rightarrow> config" where
  "merge_config doc =
     (case doc of
        None \<Rightarrow> defaultConfig
      | Some u \<Rightarrow>
          \<lparr>temperature = (case cc_temperature u of None \<Rightarrow> temperature defaultConfig | Some v \<Rightarrow> v),
           topK = (case cc_topK u of None \<Rightarrow> topK defaultConfig | Some v \<Rightarrow> v),
           topP = (case cc_topP u of None \<Rightarrow> topP defaultConfig | Some v \<Rightarrow> v),
           maxOutputTokens =
             (case cc_maxOutputTokens u of None \<Rightarrow> maxOutputTokens defaultConfig | Some v \<Rightarrow> v),
           mediaImage = (case cc_mediaImage u of None \<Rightarrow> mediaImage defaultConfig | Some v \<Rightarrow> v),
           mediaAudio = (case cc_mediaAudio u of None \<Rightarrow> mediaAudio defaultConfig | Some v \<Rightarrow> v),
           activePrompt = cc_activePrompt u,
           systemInstructions = None, botName = None\<rparr>)"

text \<open>
  \<^verbatim>\<open>config.systemInstructions.match(/^Seu nome ? (\w+)\./)\<close>: the first group of the match,
  or \<open>None\<close> when the text does not match.
\<close>

definition name_match :: "jsstring \<Rightarrow> jsstring option" where
  "name_match text =
     (case rx_match (Lit (js ''Seu nome '' @ [0xE9] @ js '' '')) text of
        [] \<Rightarrow> None
      | rest # _ \<Rightarrow>
          (case filter (\<lambda>r. rx_match (Lit (js ''.'')) r \<noteq> []) (rx_match (Many1 isWord) rest) of
             [] \<Rightarrow> None
           | r # _ \<Rightarrow> Some (take (length rest - length r) rest)))"

text \<open>\<^verbatim>\<open>getConfig(chatId)\<close>\<close>

definition getConfig ::
  "jsstring option \<Rightarrow> chat_config list \<Rightarrow> prompt list \<Rightarrow> jsstring \<Rightarrow> config" where
  "getConfig env_BOT_NAME configDb promptsDb chatId =
     (let config = merge_config (db_findOne (\<lambda>doc. cc_chatId doc = chatId) configDb)
      in case activePrompt config of
           None \<Rightarrow> config\<lparr>botName := Some (default_bot_name env_BOT_NAME)\<rparr>
         | Some name \<Rightarrow>
             if name = [] then config\<lparr>botName := Some (default_bot_name env_BOT_NAME)\<rparr>
             else (case getSystemPrompt promptsDb chatId name of
                     None \<Rightarrow> config
                   | Some p \<Rightarrow>
                       config\<lparr>systemInstructions := Some (prompt_text p),
                              botName := Some (case name_match (prompt_text p) of
                                                 Some n \<Rightarrow> n
                                               | None \<Rightarrow> default_bot_name env_BOT_NAME)\<rparr>))"

text \<open>
  \<^verbatim>\<open>setActiveSystemPrompt(chatId, promptName)\<close>: the flag it returns and the store of
  configurations after it.
\<close>

definition setActiveSystemPrompt ::
  "prompt list \<Rightarrow> chat_config list \<Rightarrow> jsstring \<Rightarrow> jsstring \<Rightarrow> bool \<times> chat_config list" where
  "setActiveSystemPrompt promptsDb configDb chatId promptName =
     (case getSystemPrompt promptsDb chatId promptName of
        Some p \<Rightarrow> (True, setConfig configDb chatId (ActivePrompt (Some promptName)))
      | None \<Rightarrow> (False, configDb))"

text \<open>\<^verbatim>\<open>clearActiveSystemPrompt(chatId)\<close>\<close>

definition clearActiveSystemPrompt :: "chat_config list \<Rightarrow> jsstring \<Rightarrow> bool \<times> chat_config list" where
  "clearActiveSystemPrompt configDb chatId = (True, setConfig configDb chatId (ActivePrompt None))"


section \<open>Handlers\<close>

text \<open>
  What a handler reads and changes: the three stores, the replies sent with \<^verbatim>\<open>msg.reply\<close>
  and the requests made to the generative model, oldest first. The model is outside the
  program: \<open>generate\<close> gives the text of its answer to a request, or \<open>None\<close> when
  \<^verbatim>\<open>generateContent\<close> or \<^verbatim>\<open>response.text()\<close> throws.
  The stores and \<^verbatim>\<open>msg.reply\<close> are taken to work.
\<close>

record inbound =
  in_body :: jsstring
  in_author :: "jsstring option"
  in_from :: jsstring

record media =
  media_mimetype :: jsstring
  media_data :: jsstring

record model_request =
  req_temperature :: real
  req_topK :: real
  req_topP :: real
  req_maxOutputTokens :: real
  req_systemInstruction :: "jsstring option"
  req_inlineData :: media
  req_text :: jsstring

record world =
  messagesDb :: "message list"
  promptsDb :: "prompt list"
  configDb :: "chat_config list"
  replies :: "jsstring list"
  modelCalls :: "model_request list"

definition empty_world :: world where
  "empty_world =
     \<lparr>messagesDb = [], promptsDb = [], configDb = [], replies = [], modelCalls = []\<rparr>"

definition reply :: "jsstring \<Rightarrow> world \<Rightarrow> world" where
  "reply text w = w\<lparr>replies := replies w @ [text]\<rparr>"

text \<open>
  \<^verbatim>\<open>sendMessage(msg, text)\<close>, on a string: an empty or blank text is replaced, the text is
  trimmed, \<^verbatim>\<open>/\r\n/g\<close> and \<^verbatim>\<open>/\r/g\<close> become a line feed and \<^verbatim>\<open>/\n{3,}/g\<close> two.
\<close>

definition sendMessage :: "jsstring \<Rightarrow> world \<Rightarrow> world" where
  "sendMessage text w =
     (let text = (if text = [] \<or> trim text = []
                  then js ''Desculpe, ocorreu um erro ao gerar a resposta. Por favor, tente novamente.''
                  else text);
          trimmedText = trim text;
          trimmedText = replace_all (Seq (Lit [10, 10, 10]) (Many (\<lambda>c. c = 10))) [10, 10]
                          (replace_all (Lit [13]) [10] (replace_all (Lit [13, 10]) [10] trimmedText))
      in reply trimmedText w)"

definition audio_too_big :: jsstring where
  "audio_too_big = js ''Desculpe, s'' @ [0xF3] @ js '' posso processar '' @ [0xE1] @
     js ''udios de at'' @ [0xE9] @ js '' 20MB.''"

definition audio_failed :: jsstring where
  "audio_failed = js ''Desculpe, ocorreu um erro ao processar o '' @ [0xE1] @
     js ''udio. Por favor, tente novamente.''"

definition audio_prompt :: "jsstring \<Rightarrow> jsstring" where
  "audio_prompt historyPrompt =
     js ''Hist'' @ [0xF3] @ js ''rico da conversa:'' @ [10] @ historyPrompt @ [10, 10] @
     js ''Agora, considerando este hist'' @ [0xF3] @ js ''rico e o '' @ [0xE1] @
     js ''udio fornecido, por favor, transcreva o '' @ [0xE1] @
     js ''udio e depois resuma o conte'' @ [0xFA] @ js ''do em portugu'' @ [0xEA] @ js ''s.''"

text \<open>
  \<^verbatim>\<open>handleAudioMessage(msg, audioData, chatId)\<close>. \<open>t1\<close> and \<open>t2\<close> are the values of
  \<^verbatim>\<open>Date.now()\<close> in the two calls of \<^verbatim>\<open>updateMessageHistory\<close>, \<open>p1\<close> and \<open>p2\<close> the
  places of the two documents in the store. \<^verbatim>\<open>audioData.data\<close> is the
  text that \<^verbatim>\<open>downloadMedia\<close> delivers, whose \<^verbatim>\<open>length\<close> the handler measures and which
  \<^verbatim>\<open>toString\<close> leaves as it is.
\<close>

definition handleAudioMessage ::
  "nat \<Rightarrow> jsstring option \<Rightarrow> (model_request \<Rightarrow> jsstring option) \<Rightarrow> nat \<Rightarrow> nat \<Rightarrow>
   nat \<Rightarrow> nat \<Rightarrow> inbound \<Rightarrow> media \<Rightarrow> jsstring \<Rightarrow> world \<Rightarrow> world" where
  "handleAudioMessage MAX_HISTORY env_BOT_NAME generate t1 p1 t2 p2 msg audioData chatId w =
     (let config = getConfig env_BOT_NAME (configDb w) (promptsDb w) chatId
      in if \<not> mediaAudio config then w
         else
           let audioSizeInMB = real (length (media_data audioData)) / (1024 * 1024)
           in if audioSizeInMB > 20 then reply audio_too_big w
              else
                let base64AudioFile = media_data audioData;
                    userConfig = getConfig env_BOT_NAME (configDb w) (promptsDb w) chatId;
                    history = getMessageHistory (messagesDb w) chatId MAX_HISTORY;
                    historyPrompt = join [10] history;
                    request =
                      \<lparr>req_temperature = temperature userConfig, req_topK = topK userConfig,
                       req_topP = topP userConfig,
                       req_maxOutputTokens = maxOutputTokens userConfig,
                       req_systemInstruction = systemInstructions userConfig,
                       req_inlineData = \<lparr>media_mimetype = media_mimetype audioData,
                                          media_data = base64AudioFile\<rparr>,
                       req_text = audio_prompt historyPrompt\<rparr>;
                    w = w\<lparr>modelCalls := modelCalls w @ [request]\<rparr>
                in case generate request of
                     None \<Rightarrow> reply audio_failed w
                   | Some response \<Rightarrow>
                       let w = sendMessage response w;
                           db = updateMessageHistory MAX_HISTORY t1 p1 (messagesDb w) chatId
                                  (Some (or_else (in_author msg) (in_from msg)))
                                  ([91, 0xC1] @ js ''udio]'') False;
                           db = updateMessageHistory MAX_HISTORY t2 p2 db chatId
                                  (botName userConfig) response True
                       in w\<lparr>messagesDb := db\<rparr>)"

text \<open>
  \<^verbatim>\<open>clearChatOnInstructionChange(chatId)\<close>: the body is commented out, and so is its call
  in \<^verbatim>\<open>handlePromptCommand\<close>.
\<close>

definition clearChatOnInstructionChange :: "jsstring \<Rightarrow> world \<Rightarrow> world" where
  "clearChatOnInstructionChange chatId w = w"

definition quoted :: "jsstring \<Rightarrow> jsstring" where
  "quoted name = js ''System Instruction '' @ [34] @ name @ [34]"

definition not_found :: "jsstring \<Rightarrow> jsstring" where
  "not_found name = quoted name @ js '' n'' @ [0xE3] @ js ''o encontrada.''"

text \<open>The branch \<^verbatim>\<open>case 'list'\<close>, which \<^verbatim>\<open>case 'get'\<close> falls through to.\<close>

definition prompt_list :: "jsstring \<Rightarrow> world \<Rightarrow> world" where
  "prompt_list chatId w =
     (let prompts = listSystemPrompts (promptsDb w) chatId
      in if length prompts > 0
         then reply (js ''System Instructions dispon'' @ [0xED] @ js ''veis: '' @
                     join (js '', '') (map prompt_name prompts)) w
         else reply (js ''Nenhuma System Instruction definida.'') w)"

text \<open>
  \<^verbatim>\<open>handlePromptCommand(msg, args, chatId)\<close>, with \<^verbatim>\<open>[subcommand, name, ...rest] = args\<close>.
\<close>

definition handlePromptCommand :: "jsstring list \<Rightarrow> jsstring \<Rightarrow> world \<Rightarrow> world" where
  "handlePromptCommand args chatId w =
     (let subcommand = (if length args > 0 then Some (args ! 0) else None);
          name = (if length args > 1 then Some (args ! 1) else None);
          rest = drop 2 args
      in if subcommand = Some (js ''set'') then
           (if truthy name \<and> length rest > 0
            then let promptText = join (js '' '') rest;
                     w = w\<lparr>promptsDb :=
                             setSystemPrompt (promptsDb w) chatId (template name) promptText\<rparr>
                 in reply (quoted (template name) @ js '' definida com sucesso. O hist'' @ [0xF3] @
                           js ''rico do chat foi limpo.'') w
            else reply (js ''Uso correto: !prompt set <nome> <texto>'') w)
         else if subcommand = Some (js ''get'') then
           (let w = (if truthy name
                     then (case getSystemPrompt (promptsDb w) chatId (template name) of
                             Some p \<Rightarrow> reply (quoted (template name) @ js '':'' @ [10] @ prompt_text p) w
                           | None \<Rightarrow> reply (not_found (template name)) w)
                     else reply (js ''Uso correto: !prompt get <nome>'') w)
            in prompt_list chatId w)
         else if subcommand = Some (js ''list'') then prompt_list chatId w
         else if subcommand = Some (js ''use'') then
           (if truthy name
            then (case getSystemPrompt (promptsDb w) chatId (template name) of
                    Some p \<Rightarrow>
                      let w = w\<lparr>configDb :=
                                  snd (setActiveSystemPrompt (promptsDb w) (configDb w) chatId
                                         (template name))\<rparr>
                      in reply (quoted (template name) @ js '' ativada para este chat.'') w
                  | None \<Rightarrow> reply (not_found (template name)) w)
            else reply (js ''Uso correto: !prompt use <nome>'') w)
         else if subcommand = Some (js ''clear'') then
           (let w = w\<lparr>configDb := snd (clearActiveSystemPrompt (configDb w) chatId)\<rparr>
            in reply (js ''System Instruction removida. Usando o modelo padr'' @ [0xE3] @ js ''o.'') w)
         else reply (js ''Subcomando de prompt desconhecido. Use !help para ver os comandos dispon'' @
                     [0xED] @ js ''veis.'') w)"


section \<open>Properties of the message store\<close>

lemma foldr_max_ge: "x \<in> set xs \<Longrightarrow> x \<le> foldr max xs (0::nat)"
  by (induction xs) auto

lemma new_id_fresh: "d \<in> set db \<Longrightarrow> msg_id d < new_id db"
  using foldr_max_ge [of "msg_id d" "map msg_id db"] by (simp add: new_id_def)

lemma mset_db_insert: "mset (db_insert pl doc db) = add_mset (doc\<lparr>msg_id := new_id db\<rparr>) (mset db)"
proof -
  have "mset (take pl db) + mset (drop pl db) = mset db"
    by (metis append_take_drop_id mset_append)
  then show ?thesis by (simp add: db_insert_def)
qed

lemma filter_db_insert:
  "filter q (db_insert pl doc db) =
     take (length (filter q (take pl db))) (filter q db) @
     filter q [doc\<lparr>msg_id := new_id db\<rparr>] @
     drop (length (filter q (take pl db))) (filter q db)"
proof -
  have "filter q db = filter q (take pl db) @ filter q (drop pl db)"
    by (metis append_take_drop_id filter_append)
  then show ?thesis by (simp add: db_insert_def)
qed

lemma distinct_insert_at:
  assumes "distinct xs" and "n \<notin> set xs"
  shows "distinct (take k xs @ [n] @ drop k xs)"
proof -
  have "set (take k xs) \<inter> set (drop k xs) = {}"
    using assms(1) by (rule set_take_disj_set_drop_if_distinct) simp
  then show ?thesis
    using assms by (auto dest: in_set_takeD in_set_dropD)
qed

lemma wf_store_insert: "wf_store db \<Longrightarrow> wf_store (db_insert pl doc db)"
proof -
  assume wf: "wf_store db"
  have "map msg_id (db_insert pl doc db) =
      take pl (map msg_id db) @ [new_id db] @ drop pl (map msg_id db)"
    by (simp add: db_insert_def take_map drop_map)
  moreover have "new_id db \<notin> set (map msg_id db)"
    using new_id_fresh by fastforce
  ultimately show ?thesis
    using wf distinct_insert_at unfolding wf_store_def by metis
qed

lemma wf_store_remove_ids: "wf_store db \<Longrightarrow> wf_store (db_remove_ids ids db)"
  by (simp add: wf_store_def db_remove_ids_def distinct_map_filter)

lemma remove_ids_docs:
  assumes "wf_store db" and "set R \<subseteq> set db"
  shows "db_remove_ids (map msg_id R) db = filter (\<lambda>d. d \<notin> set R) db"
proof -
  have inj: "inj_on msg_id (set db)"
    using assms(1) by (simp add: wf_store_def distinct_map)
  have "\<And>d. d \<in> set db \<Longrightarrow> (msg_id d \<notin> set (map msg_id R)) = (d \<notin> set R)"
    using inj assms(2) by (auto simp: inj_on_def)
  then show ?thesis
    unfolding db_remove_ids_def by (intro filter_cong) auto
qed

lemma filter_not_in_drop:
  "distinct xs \<Longrightarrow> filter (\<lambda>d. d \<notin> set (drop n xs)) xs = take n xs"
proof -
  assume d: "distinct xs"
  have "xs = take n xs @ drop n xs" by simp
  then have "filter (\<lambda>d. d \<notin> set (drop n xs)) xs
      = filter (\<lambda>d. d \<notin> set (drop n xs)) (take n xs) @ filter (\<lambda>d. d \<notin> set (drop n xs)) (drop n xs)"
    by (metis filter_append)
  moreover have "filter (\<lambda>d. d \<notin> set (drop n xs)) (drop n xs) = []" by simp
  moreover have "filter (\<lambda>d. d \<notin> set (drop n xs)) (take n xs) = take n xs"
    using d set_take_disj_set_drop_if_distinct [of xs n n]
    by (intro filter_True) auto
  ultimately show ?thesis by simp
qed

lemma sort_desc_filter:
  "sort_timestamp_desc (filter P xs) = filter P (sort_timestamp_desc xs)"
  by (simp add: sort_timestamp_desc_def filter_sort)

lemma sorted_desc: "sorted (map (\<lambda>d. - int (msg_timestamp d)) (sort_timestamp_desc xs))"
  by (simp add: sort_timestamp_desc_def)

lemma sorted_desc_take_drop:
  assumes "a \<in> set (take n (sort_timestamp_desc xs))" and "b \<in> set (drop n (sort_timestamp_desc xs))"
  shows "msg_timestamp b \<le> msg_timestamp a"
proof -
  let ?S = "sort_timestamp_desc xs"
  have "sorted (map (\<lambda>d. - int (msg_timestamp d)) (take n ?S @ drop n ?S))"
    using sorted_desc by simp
  then have "\<forall>x\<in>set (take n ?S). \<forall>y\<in>set (drop n ?S). - int (msg_timestamp x) \<le> - int (msg_timestamp y)"
    unfolding map_append sorted_append by auto
  with assms show ?thesis by fastforce
qed

lemma sorted_rev_desc:
  "sorted (map msg_timestamp (rev (take n (sort_timestamp_desc xs))))"
proof -
  have "sorted (map (\<lambda>d. - int (msg_timestamp d)) (take n (sort_timestamp_desc xs)))"
    using sorted_desc by (simp add: sorted_wrt_take flip: take_map)
  then have "sorted_wrt (\<lambda>x y. msg_timestamp y \<le> msg_timestamp x) (take n (sort_timestamp_desc xs))"
    by (simp add: sorted_wrt_map)
  then show ?thesis
    by (simp add: sorted_wrt_map sorted_wrt_rev flip: rev_map)
qed


lemma wf_store_distinct: "wf_store db \<Longrightarrow> distinct db"
  by (simp add: wf_store_def distinct_map)

lemma wf_store_inserted: "wf_store db \<Longrightarrow> wf_store (inserted now pl db c s m b)"
  by (simp add: inserted_def wf_store_insert)

lemma docsToRemove_subset: "set (docsToRemove L c db) \<subseteq> set db"
proof -
  have "set (docsToRemove L c db) \<subseteq> set (sort_timestamp_desc (db_find (chat_query c) db))"
    unfolding docsToRemove_def cursor_skip_def by (rule set_drop_subset)
  then show ?thesis
    by (auto simp: sort_timestamp_desc_def db_find_def)
qed

lemma update_as_filter:
  assumes "wf_store db"
  shows "updateMessageHistory L now pl db c s m b =
     filter (\<lambda>d. d \<notin> set (docsToRemove L c (inserted now pl db c s m b))) (inserted now pl db c s m b)"
  unfolding updateMessageHistory_def Let_def
  by (rule remove_ids_docs [OF wf_store_inserted [OF assms] docsToRemove_subset])

lemma wf_store_update: "wf_store db \<Longrightarrow> wf_store (updateMessageHistory L now pl db c s m b)"
  by (simp add: updateMessageHistory_def Let_def wf_store_remove_ids wf_store_inserted)

lemma kept_sorted:
  assumes "wf_store db"
  shows "sort_timestamp_desc (db_find (chat_query c) (updateMessageHistory L now pl db c s m b)) =
     take (L * 2) (sort_timestamp_desc (db_find (chat_query c) (inserted now pl db c s m b)))"
proof -
  let ?db1 = "inserted now pl db c s m b"
  let ?S = "sort_timestamp_desc (db_find (chat_query c) ?db1)"
  have dS: "distinct ?S"
    using wf_store_distinct [OF wf_store_inserted [OF assms]]
    by (simp add: sort_timestamp_desc_def db_find_def)
  have "db_find (chat_query c) (updateMessageHistory L now pl db c s m b) =
      filter (\<lambda>d. d \<notin> set (drop (L * 2) ?S)) (db_find (chat_query c) ?db1)"
    unfolding update_as_filter [OF assms] docsToRemove_def cursor_skip_def db_find_def
    by (simp add: conj_commute)
  then have "sort_timestamp_desc (db_find (chat_query c) (updateMessageHistory L now pl db c s m b)) =
      filter (\<lambda>d. d \<notin> set (drop (L * 2) ?S)) ?S"
    by (simp add: sort_desc_filter)
  then show ?thesis
    using filter_not_in_drop [OF dS] by simp
qed

lemma kept_set:
  assumes "wf_store db"
  shows "set (db_find (chat_query c) (updateMessageHistory L now pl db c s m b)) =
     set (take (L * 2) (sort_timestamp_desc (db_find (chat_query c) (inserted now pl db c s m b))))"
  using kept_sorted [OF assms, of c L now pl s m b, THEN arg_cong, of set]
  by (simp add: sort_timestamp_desc_def)

lemma kept_length:
  assumes "wf_store db"
  shows "length (db_find (chat_query c) (updateMessageHistory L now pl db c s m b)) \<le> 2 * L"
proof -
  have "length (sort_timestamp_desc (db_find (chat_query c) (updateMessageHistory L now pl db c s m b))) \<le> L * 2"
    unfolding kept_sorted [OF assms] by simp
  then show ?thesis by (simp add: sort_timestamp_desc_def)
qed

lemma deleted_set:
  assumes "wf_store db"
  shows "set (inserted now pl db c s m b) - set (updateMessageHistory L now pl db c s m b) =
     set (docsToRemove L c (inserted now pl db c s m b))"
  unfolding update_as_filter [OF assms] using docsToRemove_subset [of L c "inserted now pl db c s m b"]
  by auto

lemma docsToRemove_chat: "d \<in> set (docsToRemove L c db) \<Longrightarrow> chat_query c d"
proof -
  assume "d \<in> set (docsToRemove L c db)"
  then have "d \<in> set (sort_timestamp_desc (db_find (chat_query c) db))"
    unfolding docsToRemove_def cursor_skip_def by (rule in_set_dropD)
  then show ?thesis by (simp add: sort_timestamp_desc_def db_find_def)
qed

lemma deleted_oldest:
  assumes "wf_store db"
    and "d \<in> set (inserted now pl db c s m b) - set (updateMessageHistory L now pl db c s m b)"
    and "k \<in> set (db_find (chat_query c) (updateMessageHistory L now pl db c s m b))"
  shows "msg_timestamp d \<le> msg_timestamp k"
  using assms(2,3) unfolding deleted_set [OF assms(1)] kept_set [OF assms(1)]
    docsToRemove_def cursor_skip_def
  by (metis sorted_desc_take_drop)

lemma history_after_update:
  assumes "wf_store db"
  shows "history_docs (updateMessageHistory L now pl db c s m b) c L =
     rev (take (L * 2) (sort_timestamp_desc (db_find (chat_query c) (inserted now pl db c s m b))))"
  unfolding history_docs_def kept_sorted [OF assms] cursor_limit_def by simp

lemma other_chat_untouched:
  assumes "wf_store db" and "c' \<noteq> c"
  shows "db_find (chat_query c') (updateMessageHistory L now pl db c s m b) = db_find (chat_query c') db"
proof -
  have "\<And>d. chat_query c' d \<Longrightarrow> d \<notin> set (docsToRemove L c (inserted now pl db c s m b))"
    using docsToRemove_chat assms(2) by (auto simp: chat_query_def)
  then have "db_find (chat_query c') (updateMessageHistory L now pl db c s m b) =
      db_find (chat_query c') (inserted now pl db c s m b)"
    unfolding update_as_filter [OF assms(1)] db_find_def filter_filter
    by (intro filter_cong) auto
  also have "\<dots> = db_find (chat_query c') db"
    unfolding inserted_def db_find_def filter_db_insert
    using assms(2) by (simp add: new_doc_def chat_query_def)
  finally show ?thesis .
qed

lemma wf_store_appends: "wf_store db \<Longrightarrow> wf_store (appends L calls db)"
  unfolding appends_def
  by (induction calls arbitrary: db) (simp_all add: append_step_def wf_store_update)

lemma history_docs_sorted: "sorted (map msg_timestamp (history_docs db c limit))"
  unfolding history_docs_def cursor_limit_def
  using sorted_rev_desc [of "limit * 2" "db_find (chat_query c) db"]
    sorted_rev_desc [of "length (db_find (chat_query c) db)" "db_find (chat_query c) db"]
  by (simp add: sort_timestamp_desc_def)

lemma history_docs_length:
  "length (history_docs db c limit) =
     (if limit = 0 then length (db_find (chat_query c) db)
      else min (2 * limit) (length (db_find (chat_query c) db)))"
  by (auto simp: history_docs_def cursor_limit_def sort_timestamp_desc_def)

lemma mset_take_subseteq: "mset (take n xs) \<subseteq># mset xs"
  by (metis append_take_drop_id mset_append mset_subset_eq_add_left)

lemma mset_take_diff: "mset xs - mset (take n xs) = mset (drop n xs)"
  by (metis append_take_drop_id mset_append add_diff_cancel_left')

lemma history_docs_subseteq: "mset (history_docs db c limit) \<subseteq># mset (db_find (chat_query c) db)"
proof -
  have "mset (sort_timestamp_desc (db_find (chat_query c) db)) = mset (db_find (chat_query c) db)"
    by (simp add: sort_timestamp_desc_def)
  then show ?thesis
    unfolding history_docs_def cursor_limit_def
    using mset_take_subseteq [of "limit * 2" "sort_timestamp_desc (db_find (chat_query c) db)"]
    by (simp split: if_splits)
qed

lemma history_docs_newest:
  assumes "x \<in># mset (db_find (chat_query c) db) - mset (history_docs db c limit)"
    and "d \<in> set (history_docs db c limit)"
  shows "msg_timestamp x \<le> msg_timestamp d"
proof (cases "limit = 0")
  case True
  then have "mset (history_docs db c limit) = mset (db_find (chat_query c) db)"
    by (simp add: history_docs_def cursor_limit_def sort_timestamp_desc_def)
  with assms(1) show ?thesis by simp
next
  case False
  let ?S = "sort_timestamp_desc (db_find (chat_query c) db)"
  have h: "history_docs db c limit = rev (take (limit * 2) ?S)"
    using False by (simp add: history_docs_def cursor_limit_def)
  have "mset (db_find (chat_query c) db) = mset ?S"
    by (simp add: sort_timestamp_desc_def)
  then have "mset (db_find (chat_query c) db) - mset (history_docs db c limit) = mset (drop (limit * 2) ?S)"
    unfolding h by (simp add: mset_take_diff)
  with assms(1) have "x \<in> set (drop (limit * 2) ?S)" by simp
  moreover have "d \<in> set (take (limit * 2) ?S)" using assms(2) unfolding h by simp
  ultimately show ?thesis by (metis sorted_desc_take_drop)
qed

lemma inserted_mset:
  "mset (inserted now pl db c s m b) =
     add_mset ((new_doc now c s m b)\<lparr>msg_id := new_id db\<rparr>) (mset db)"
  by (simp add: inserted_def mset_db_insert)

lemma inserted_chat_length:
  "length (db_find (chat_query c) (inserted now pl db c s m b)) =
     Suc (length (db_find (chat_query c) db))"
proof -
  have q: "chat_query c ((new_doc now c s m b)\<lparr>msg_id := new_id db\<rparr>)"
    by (cases b) (simp_all add: chat_query_def new_doc_def)
  have "size (filter_mset (chat_query c) (mset (inserted now pl db c s m b))) =
      Suc (size (filter_mset (chat_query c) (mset db)))"
    unfolding inserted_mset using q by simp
  then show ?thesis
    unfolding db_find_def by (metis mset_filter size_mset)
qed

lemma kept_length_exact:
  assumes "wf_store db"
  shows "length (db_find (chat_query c) (updateMessageHistory L now pl db c s m b)) =
     min (2 * L) (Suc (length (db_find (chat_query c) db)))"
proof -
  have "length (sort_timestamp_desc (db_find (chat_query c) (updateMessageHistory L now pl db c s m b))) =
      min (length (sort_timestamp_desc (db_find (chat_query c) (inserted now pl db c s m b)))) (L * 2)"
    unfolding kept_sorted [OF assms] by simp
  then show ?thesis
    using inserted_chat_length [of c now pl db s m b]
    by (simp add: sort_timestamp_desc_def min.commute mult.commute)
qed

lemma filter_take_prefix: "filter P (take n xs) = take (length (filter P (take n xs))) (filter P xs)"
proof -
  have "filter P xs = filter P (take n xs) @ filter P (drop n xs)"
    by (metis append_take_drop_id filter_append)
  then show ?thesis by simp
qed

lemma sort_desc_stable:
  "filter (\<lambda>d. msg_timestamp d = k) (sort_timestamp_desc xs) =
     filter (\<lambda>d. msg_timestamp d = k) xs"
proof -
  have "filter (\<lambda>d. - int (msg_timestamp d) = - int k) (sort_timestamp_desc xs) =
      filter (\<lambda>d. - int (msg_timestamp d) = - int k) xs"
    unfolding sort_timestamp_desc_def by (rule sort_key_stable)
  then show ?thesis by simp
qed

lemma history_docs_ties:
  "\<exists>n. filter (\<lambda>d. msg_timestamp d = k) (history_docs db c limit) =
     rev (take n (filter (\<lambda>d. msg_timestamp d = k) (db_find (chat_query c) db)))"
proof -
  let ?P = "\<lambda>d. msg_timestamp d = k"
  let ?S = "sort_timestamp_desc (db_find (chat_query c) db)"
  have "history_docs db c limit =
      rev (take (if limit * 2 = 0 then length ?S else limit * 2) ?S)"
    by (simp add: history_docs_def cursor_limit_def)
  then obtain j where h: "history_docs db c limit = rev (take j ?S)"
    by blast
  define n where "n = length (filter ?P (take j ?S))"
  have a: "filter ?P (take j ?S) = take n (filter ?P ?S)"
    unfolding n_def by (rule filter_take_prefix)
  have b: "filter ?P ?S = filter ?P (db_find (chat_query c) db)"
    by (rule sort_desc_stable)
  have "filter ?P (rev (take j ?S)) = rev (filter ?P (take j ?S))"
    by (rule rev_filter [symmetric])
  also have "\<dots> = rev (take n (filter ?P (db_find (chat_query c) db)))"
    unfolding a b ..
  finally show ?thesis unfolding h by blast
qed

lemmas history_eval =
  scenario_appends_def appends_def append_step_def updateMessageHistory_def inserted_def
  new_doc_def db_insert_def new_id_def docsToRemove_def cursor_skip_def sort_timestamp_desc_def
  db_find_def chat_query_def db_remove_ids_def getMessageHistory_def history_docs_def
  cursor_limit_def render_def js_def

lemma scenario_read:
  assumes "t1 < t2"
  shows "getMessageHistory (appends 500 (scenario_appends t1 p1 t2 p2) []) (js ''chat1'') 500 =
     [js ''alice: hi'', js ''Amelie: hello'']"
  using assms by (cases p2) (simp_all add: history_eval)


section \<open>Properties of the prompt and configuration stores\<close>

lemma find_db_update:
  assumes "q new" and "\<And>d. q d \<Longrightarrow> q (modify d)"
  shows "db_findOne q (db_update q modify new db) =
     Some (case db_findOne q db of None \<Rightarrow> new | Some d \<Rightarrow> modify d)"
  using assms unfolding db_findOne_def by (induction db) auto

lemma findOne_None: "(db_findOne q db = None) = (\<forall>d\<in>set db. \<not> q d)"
  unfolding db_findOne_def by (auto simp: find_None_iff)


lemma messagesDb_reply: "messagesDb (reply text w) = messagesDb w"
  by (simp add: reply_def)

lemma messagesDb_prompt_list: "messagesDb (prompt_list chatId w) = messagesDb w"
  by (simp add: prompt_list_def Let_def messagesDb_reply)


section \<open>Properties of the regular expressions\<close>

lemma set_rx_many: "set (map (\<lambda>k. drop k s) (rev [m..<Suc n])) = {drop k s |k. m \<le> k \<and> k \<le> n}"
  by (auto simp: image_iff)

lemma rx_match_suffix: "t \<in> set (rx_match r s) \<Longrightarrow> \<exists>p. s = p @ t"
proof (induction r arbitrary: s t)
  case (Lit l)
  then show ?case by (auto split: if_splits) (metis append_take_drop_id)
next
  case (Many p)
  then obtain k where "t = drop k s"
    unfolding rx_match.simps set_rx_many by auto
  then have "s = take k s @ t" by simp
  then show ?case by blast
next
  case (Many1 p)
  then obtain k where "t = drop k s"
    unfolding rx_match.simps set_rx_many by auto
  then have "s = take k s @ t" by simp
  then show ?case by blast
next
  case (Seq a b)
  from Seq.prems obtain u where u: "u \<in> set (rx_match a s)" and t: "t \<in> set (rx_match b u)"
    by auto
  from Seq.IH(1) [OF u] Seq.IH(2) [OF t] show ?case by (metis append.assoc)
next
  case (Alt a b)
  then show ?case by auto
qed

lemma length_takeWhile_append: "length (takeWhile p s) \<le> length (takeWhile p (s @ e))"
  by (simp add: takeWhile_append trans_le_add1 length_takeWhile_le)

lemma rx_match_extend: "t \<in> set (rx_match r s) \<Longrightarrow> t @ e \<in> set (rx_match r (s @ e))"
proof (induction r arbitrary: s t)
  case (Lit l)
  then have l: "take (length l) s = l" and t: "t = drop (length l) s"
    by (auto split: if_splits)
  from l have "length (take (length l) s) = length l" by simp
  then have "length l \<le> length s" by simp
  with l t show ?case by simp
next
  case (Many p)
  then obtain k where k: "t = drop k s" "k \<le> length (takeWhile p s)"
    unfolding rx_match.simps set_rx_many by auto
  then have "k \<le> length s" using length_takeWhile_le [of p s] by linarith
  then have "t @ e = drop k (s @ e)" using k by simp
  moreover have "k \<le> length (takeWhile p (s @ e))"
    using k(2) length_takeWhile_append [of p s e] by linarith
  ultimately show ?case unfolding rx_match.simps set_rx_many by blast
next
  case (Many1 p)
  then obtain k where k: "t = drop k s" "1 \<le> k" "k \<le> length (takeWhile p s)"
    unfolding rx_match.simps set_rx_many by auto
  then have "k \<le> length s" using length_takeWhile_le [of p s] by linarith
  then have "t @ e = drop k (s @ e)" using k by simp
  moreover have "k \<le> length (takeWhile p (s @ e))"
    using k(3) length_takeWhile_append [of p s e] by linarith
  ultimately show ?case using k(2) unfolding rx_match.simps set_rx_many by blast
next
  case (Seq a b)
  from Seq.prems obtain u where u: "u \<in> set (rx_match a s)" and t: "t \<in> set (rx_match b u)"
    by auto
  from Seq.IH(1) [OF u] Seq.IH(2) [OF t] show ?case by auto
next
  case (Alt a b)
  then show ?case by auto
qed

lemma rx_match_extend_nonempty: "rx_match r s \<noteq> [] \<Longrightarrow> rx_match r (s @ e) \<noteq> []"
  by (metis rx_match_extend length_greater_0_conv length_pos_if_in_set nth_mem)

lemma has_match_append_right: "has_match r s \<Longrightarrow> has_match r (s @ e)"
proof (induction s)
  case Nil
  then show ?case by simp
next
  case (Cons c cs)
  then show ?case using rx_match_extend_nonempty [of r "c # cs" e] by auto
qed

lemma has_match_append_left: "has_match r s \<Longrightarrow> has_match r (p @ s)"
  by (induction p) auto

lemma has_match_take: "has_match r (take k s) \<Longrightarrow> has_match r s"
  using has_match_append_right [of r "take k s" "drop k s"] by simp

lemma has_match_drop: "has_match r (drop k s) \<Longrightarrow> has_match r s"
  using has_match_append_left [of r "drop k s" "take k s"] by simp

lemma split_first_prefix: "split_first r s @ drop (length (split_first r s)) s = s"
  by (induction s) auto

lemma split_first_rest:
  "drop (length (split_first r s)) s = [] \<or> rx_match r (drop (length (split_first r s)) s) \<noteq> []"
  by (induction s) auto

lemma split_first_no_match: "\<not> has_match r (split_first r s)"
proof (induction s)
  case Nil
  then show ?case by simp
next
  case (Cons c cs)
  show ?case
  proof (cases "rx_match r (c # cs) = []")
    case True
    have "rx_match r (c # split_first r cs) = []"
      using rx_match_extend_nonempty [of r "c # split_first r cs" "drop (length (split_first r cs)) cs"]
        True split_first_prefix [of r cs] by auto
    with True Cons show ?thesis by simp
  next
    case False
    then show ?thesis by simp
  qed
qed


lemma trim_take_drop:
  "trim s = take (length (trim s)) (drop (length (takeWhile isSpace s)) s)"
proof -
  let ?u = "dropWhile isSpace s"
  have "rev ?u = takeWhile isSpace (rev ?u) @ dropWhile isSpace (rev ?u)" by simp
  then have "?u = rev (dropWhile isSpace (rev ?u)) @ rev (takeWhile isSpace (rev ?u))"
    by (metis rev_append rev_rev_ident)
  then have "?u = trim s @ rev (takeWhile isSpace (rev ?u))" by (simp add: trim_def)
  then have "take (length (trim s)) ?u = trim s"
    by (metis append_eq_conv_conj)
  then show ?thesis by (simp add: dropWhile_eq_drop)
qed

lemma trim_ends:
  assumes "trim s \<noteq> []"
  shows "\<not> isSpace (hd (trim s)) \<and> \<not> isSpace (last (trim s))"
proof -
  let ?u = "dropWhile isSpace s"
  let ?v = "dropWhile isSpace (rev ?u)"
  have v: "?v \<noteq> []" using assms by (simp add: trim_def)
  then have u: "?u \<noteq> []" by (auto dest: set_dropWhileD)
  have hv: "\<not> isSpace (hd ?v)" using v by (rule hd_dropWhile)
  have hu: "\<not> isSpace (hd ?u)" using u by (rule hd_dropWhile)
  have "last (trim s) = hd ?v" using v by (simp add: trim_def last_rev)
  moreover have "hd (trim s) = last ?v" using v by (simp add: trim_def hd_rev)
  moreover have "last ?v = last (rev ?u)"
    using u hu by (intro dropWhile_last) (auto simp: last_rev)
  moreover have "last (rev ?u) = hd ?u" using u by (simp add: last_rev)
  ultimately show ?thesis using hv hu by simp
qed




lemma has_match_trim: "has_match r (trim s) \<Longrightarrow> has_match r s"
  by (metis trim_take_drop has_match_take has_match_drop)

lemma lit_prefix: "rx_match (Seq (Lit l) r) (l @ u) = rx_match r u"
  by simp

lemma rev_upt_Suc: "m \<le> n \<Longrightarrow> rev [m..<Suc n] = n # rev [m..<n]"
  by simp

lemma many1_then_lit:
  assumes "d \<noteq> []" and "\<forall>x\<in>set d. p x" and "\<not> p c"
  shows "rx_match (Seq (Many1 p) (Seq (Lit (c # l)) r)) (d @ c # l @ t) = rx_match r t"
proof -
  let ?s = "d @ c # l @ t"
  let ?f = "rx_match (Seq (Lit (c # l)) r)"
  have tw: "takeWhile p ?s = d" using assms(2,3) by (simp add: takeWhile_tail)
  have n: "1 \<le> length d" using assms(1) by (cases d) auto
  have m: "rx_match (Many1 p) ?s = drop (length d) ?s # map (\<lambda>k. drop k ?s) (rev [1..<length d])"
    unfolding rx_match.simps tw rev_upt_Suc [OF n] by simp
  have rest: "?f (drop k ?s) = []" if "k \<in> set (rev [1..<length d])" for k
  proof -
    from that have k: "k < length d" by simp
    then have "drop k ?s = (d ! k) # drop (Suc k) d @ c # l @ t"
      by (simp add: Cons_nth_drop_Suc)
    moreover have "d ! k \<noteq> c" using assms(2,3) k by (metis nth_mem)
    ultimately show ?thesis by simp
  qed
  have "concat (map ?f (map (\<lambda>k. drop k ?s) (rev [1..<length d]))) = []"
    using rest by simp
  moreover have "?f (drop (length d) ?s) = rx_match r t" by simp
  ultimately show ?thesis
    unfolding rx_match.simps(4) [of "Many1 p"] m by simp
qed

lemma many_first:
  "rx_match (Many p) t = dropWhile p t # map (\<lambda>k. drop k t) (rev [0..<length (takeWhile p t)])"
  by (simp add: dropWhile_eq_drop)

lemma replace_anchored_many:
  "rx_match r s = rx_match (Many p) t \<Longrightarrow> replace_anchored r s = dropWhile p t"
  unfolding replace_anchored_def many_first by simp

section \<open>Properties of the sanitizer\<close>

lemma sanitize_core: "sanitizeResponse x = (if core x = [] then apology else core x)"
  by (simp add: sanitizeResponse_def core_def Let_def)

lemma apology_nonempty: "apology \<noteq> []"
  by (simp add: apology_def js_def)



lemma apology_no_speaker: "\<not> has_match re_speaker apology"
  by (simp add: apology_def re_speaker_def js_def isUpper_def)



lemma replace_anchored_id: "rx_match r s = [] \<Longrightarrow> replace_anchored r s = s"
  by (simp add: replace_anchored_def)

lemma replace_anchored_suffix: "\<exists>p. s = p @ replace_anchored r s"
proof (cases "rx_match r s")
  case Nil
  then show ?thesis by (simp add: replace_anchored_def)
next
  case (Cons t ts)
  then have "t \<in> set (rx_match r s)" by simp
  from rx_match_suffix [OF this] Cons show ?thesis by (simp add: replace_anchored_def)
qed










lemma core_no_speaker: "\<not> has_match re_speaker (core x)"
  unfolding core_def using has_match_trim split_first_no_match by blast



lemma sanitize_nonempty: "sanitizeResponse x \<noteq> []"
  by (simp add: sanitize_core apology_nonempty)

lemma sanitize_no_speaker: "\<not> has_match re_speaker (sanitizeResponse x)"
  by (simp add: sanitize_core apology_no_speaker core_no_speaker)




lemma strip_importance:
  assumes "d1 \<noteq> []" and "\<forall>c\<in>set d1. isDigit c" and "d2 \<noteq> []" and "\<forall>c\<in>set d2. isDigit c"
  shows "replace_anchored re_importance
           (js ''[Import'' @ [0xE2] @ js ''ncia: '' @ d1 @ js ''.'' @ d2 @ js '']'' @ rest) =
         dropWhile isSpace rest"
proof -
  define L where "L = js ''[Import'' @ [0xE2] @ js ''ncia: ''"
  define R2 where "R2 = Seq (Many1 isDigit) (Seq (Lit (93 # [])) (Many isSpace))"
  define R1 where "R1 = Seq (Many1 isDigit) (Seq (Lit (46 # [])) R2)"
  have dot: "\<not> isDigit 46" and br: "\<not> isDigit 93" by (simp_all add: isDigit_def)
  have re: "re_importance = Seq (Lit L) R1"
    by (simp add: re_importance_def L_def R1_def R2_def js_def)
  have inp: "js ''[Import'' @ [0xE2] @ js ''ncia: '' @ d1 @ js ''.'' @ d2 @ js '']'' @ rest =
      L @ (d1 @ 46 # [] @ (d2 @ 93 # [] @ rest))"
    by (simp add: L_def js_def)
  have "rx_match re_importance (L @ (d1 @ 46 # [] @ (d2 @ 93 # [] @ rest))) =
      rx_match R1 (d1 @ 46 # [] @ (d2 @ 93 # [] @ rest))"
    unfolding re by (rule lit_prefix)
  also have "\<dots> = rx_match R2 (d2 @ 93 # [] @ rest)"
    unfolding R1_def by (rule many1_then_lit [OF assms(1,2) dot])
  also have "\<dots> = rx_match (Many isSpace) rest"
    unfolding R2_def by (rule many1_then_lit [OF assms(3,4) br])
  finally show ?thesis
    unfolding inp by (rule replace_anchored_many)
qed

lemma strip_user:
  assumes "d \<noteq> []" and "\<forall>c\<in>set d. isDigit c"
  shows "replace_anchored re_user (js ''[User'' @ d @ js '']:'' @ rest) = dropWhile isSpace rest"
proof -
  define L where "L = js ''[User''"
  define R1 where "R1 = Seq (Many1 isDigit) (Seq (Lit (93 # [58])) (Many isSpace))"
  have br: "\<not> isDigit 93" by (simp add: isDigit_def)
  have re: "re_user = Seq (Lit L) R1"
    by (simp add: re_user_def L_def R1_def js_def)
  have inp: "js ''[User'' @ d @ js '']:'' @ rest = L @ (d @ 93 # [58] @ rest)"
    by (simp add: L_def js_def)
  have "rx_match re_user (L @ (d @ 93 # [58] @ rest)) = rx_match R1 (d @ 93 # [58] @ rest)"
    unfolding re by (rule lit_prefix)
  also have "\<dots> = rx_match (Many isSpace) rest"
    unfolding R1_def by (rule many1_then_lit [OF assms br])
  finally show ?thesis
    unfolding inp by (rule replace_anchored_many)
qed

lemma speaker_labels:
  "rx_match re_speaker (js ''Usu'' @ [0xE1] @ js ''rio:'' @ t) \<noteq> [] \<and>
   rx_match re_speaker (js ''Human:'' @ t) \<noteq> []"
  by (simp add: re_speaker_def js_def)

lemma many1_first:
  assumes "d \<noteq> []" and "\<forall>x\<in>set d. p x" and "\<not> p c"
  shows "rx_match (Many1 p) (d @ c # t) =
     (c # t) # map (\<lambda>k. drop k (d @ c # t)) (rev [1..<length d])"
proof -
  have tw: "takeWhile p (d @ c # t) = d" using assms(2,3) by (simp add: takeWhile_tail)
  have n: "1 \<le> length d" using assms(1) by (cases d) auto
  show ?thesis
    unfolding rx_match.simps tw rev_upt_Suc [OF n] by simp
qed

lemma speaker_capitals:
  assumes "u \<noteq> []" and "\<forall>c\<in>set u. isUpper c"
  shows "rx_match re_speaker (u @ js '':'' @ t) \<noteq> []"
proof -
  have c: "\<not> isUpper 58" by (simp add: isUpper_def)
  have "rx_match (Seq (Many1 isUpper) (Lit [58])) (u @ 58 # t) \<noteq> []"
    unfolding rx_match.simps(4) many1_first [OF assms c] by simp
  then show ?thesis
    by (simp add: re_speaker_def js_def del: rx_match.simps(3))
qed

lemma trim_substring: "\<exists>p q. s = p @ trim s @ q"
proof -
  let ?m = "length (takeWhile isSpace s)"
  have "drop ?m s = take (length (trim s)) (drop ?m s) @ drop (length (trim s)) (drop ?m s)"
    by (rule append_take_drop_id [symmetric])
  then have "drop ?m s = trim s @ drop (length (trim s)) (drop ?m s)"
    using trim_take_drop [of s] by simp
  moreover have "s = take ?m s @ drop ?m s" by simp
  ultimately have "s = take ?m s @ trim s @ drop (length (trim s)) (drop ?m s)" by simp
  then show ?thesis by blast
qed

lemma core_substring: "\<exists>p q. x = p @ core x @ q"
proof -
  let ?a = "replace_anchored re_importance x"
  let ?b = "replace_anchored re_user ?a"
  let ?c = "split_first re_speaker ?b"
  obtain p1 where 1: "x = p1 @ ?a" using replace_anchored_suffix by blast
  obtain p2 where 2: "?a = p2 @ ?b" using replace_anchored_suffix by blast
  have 3: "?b = ?c @ drop (length ?c) ?b" by (simp add: split_first_prefix)
  obtain p4 q4 where 4: "?c = p4 @ trim ?c @ q4" using trim_substring by blast
  have "x = (p1 @ p2 @ p4) @ trim ?c @ (q4 @ drop (length ?c) ?b)"
    using 1 2 3 4 by (metis append.assoc)
  then show ?thesis unfolding core_def by blast
qed


section \<open>Specified properties\<close>

lemma appends_snoc: "appends L (calls @ [a]) db0 = append_step L a (appends L calls db0)"
  by (simp add: appends_def)

lemma bound_all_chats_step:
  assumes "wf_store db" and "\<forall>c'. length (db_find (chat_query c') db) \<le> 2 * L"
  shows "length (db_find (chat_query c') (updateMessageHistory L now pl db c s m b)) \<le> 2 * L"
proof (cases "c' = c")
  case True
  then show ?thesis using kept_length [OF assms(1)] by simp
next
  case False
  then show ?thesis using other_chat_untouched [OF assms(1) False] assms(2) by simp
qed

lemma bound_all_chats:
  assumes "wf_store db" and "\<forall>c'. length (db_find (chat_query c') db) \<le> 2 * L"
  shows "length (db_find (chat_query c') (appends L calls db)) \<le> 2 * L"
  using assms
proof (induction calls arbitrary: db c' rule: rev_induct)
  case Nil
  then show ?case by (simp add: appends_def)
next
  case (snoc a calls)
  have wf: "wf_store (appends L calls db)" using snoc.prems(1) by (rule wf_store_appends)
  have "\<forall>c'. length (db_find (chat_query c') (appends L calls db)) \<le> 2 * L"
    using snoc.IH [OF snoc.prems] by blast
  from bound_all_chats_step [OF wf this] show ?case
    unfolding appends_snoc append_step_def .
qed

text \<open>
  C1. Let \<open>db\<close> be the store that a sequence of appends with pair limit \<open>L\<close> has reached
  from a well-formed store, and \<open>a\<close> one more append, to the chat \<open>c\<close>. The insert adds
  the new row and nothing else, so the chat has one row more. The trim then deletes the
  rows of \<open>c\<close> that come after the first \<open>2 * L\<close> when the rows of \<open>c\<close> are sorted newest
  first, and no other row. So the rows of \<open>c\<close> that are kept are the newest \<open>2 * L\<close> of the
  rows after the insert (all of them when there are no more than \<open>2 * L\<close>), their number is
  the smaller of \<open>2 * L\<close> and the number after the insert, every row deleted is a row of
  \<open>c\<close> and is no newer than any row of \<open>c\<close> that is kept, and the rows of the other
  chats are as before. A read of \<open>c\<close> then returns the lines of exactly the rows kept,
  oldest first, at most \<open>2 * L\<close> of them. If every chat had at most \<open>2 * L\<close> rows at the
  start, every chat has at most \<open>2 * L\<close> rows after the appends.
\<close>

theorem history_bounded_after_append:
  assumes "wf_store db0"
  shows "let db = appends L calls db0;
             c = app_chatId a;
             row = (new_doc (app_now a) c (app_sender a) (app_content a) (app_isBot a))
                     \<lparr>msg_id := new_id db\<rparr>;
             db1 = inserted (app_now a) (app_place a) db c (app_sender a) (app_content a)
                     (app_isBot a);
             newest_first = sort_timestamp_desc (db_find (chat_query c) db1);
             db' = appends L (calls @ [a]) db0
         in mset db1 = add_mset row (mset db) \<and>
            length (db_find (chat_query c) db1) = Suc (length (db_find (chat_query c) db)) \<and>
            db' = filter (\<lambda>d. d \<notin> set (drop (2 * L) newest_first)) db1 \<and>
            sort_timestamp_desc (db_find (chat_query c) db') = take (2 * L) newest_first \<and>
            length (db_find (chat_query c) db') =
              min (2 * L) (Suc (length (db_find (chat_query c) db))) \<and>
            history_docs db' c L = rev (take (2 * L) newest_first) \<and>
            length (db_find (chat_query c) db') \<le> 2 * L \<and>
            set db' \<subseteq> set db1 \<and>
            (\<forall>d\<in>set db1 - set db'.
               chat_query c d \<and>
               (\<forall>k\<in>set (db_find (chat_query c) db'). msg_timestamp d \<le> msg_timestamp k)) \<and>
            (\<forall>c'. c' \<noteq> c \<longrightarrow> db_find (chat_query c') db' = db_find (chat_query c') db) \<and>
            length (getMessageHistory db' c L) \<le> 2 * L \<and>
            getMessageHistory db' c L = map render (history_docs db' c L) \<and>
            sorted (map msg_timestamp (history_docs db' c L)) \<and>
            mset (history_docs db' c L) = mset (db_find (chat_query c) db') \<and>
            ((\<forall>c'. length (db_find (chat_query c') db0) \<le> 2 * L) \<longrightarrow>
             (\<forall>c'. length (db_find (chat_query c') db') \<le> 2 * L))"
proof -
  let ?db = "appends L calls db0"
  let ?c = "app_chatId a"
  let ?row = "(new_doc (app_now a) ?c (app_sender a) (app_content a) (app_isBot a))
      \<lparr>msg_id := new_id ?db\<rparr>"
  let ?db1 = "inserted (app_now a) (app_place a) ?db ?c (app_sender a) (app_content a)
      (app_isBot a)"
  let ?S = "sort_timestamp_desc (db_find (chat_query ?c) ?db1)"
  let ?db' = "updateMessageHistory L (app_now a) (app_place a) ?db ?c (app_sender a)
      (app_content a) (app_isBot a)"
  have step: "appends L (calls @ [a]) db0 = ?db'"
    by (simp add: appends_snoc append_step_def)
  have wf: "wf_store ?db" using assms by (rule wf_store_appends)
  have e1: "mset ?db1 = add_mset ?row (mset ?db)"
    by (rule inserted_mset)
  have e2: "length (db_find (chat_query ?c) ?db1) = Suc (length (db_find (chat_query ?c) ?db))"
    by (rule inserted_chat_length)
  have e3: "?db' = filter (\<lambda>d. d \<notin> set (drop (2 * L) ?S)) ?db1"
    unfolding update_as_filter [OF wf] docsToRemove_def cursor_skip_def
    by (simp add: mult.commute)
  have e4: "sort_timestamp_desc (db_find (chat_query ?c) ?db') = take (2 * L) ?S"
    unfolding kept_sorted [OF wf] by (simp add: mult.commute)
  have e5: "length (db_find (chat_query ?c) ?db') =
      min (2 * L) (Suc (length (db_find (chat_query ?c) ?db)))"
    by (rule kept_length_exact [OF wf])
  have h: "history_docs ?db' ?c L = rev (take (L * 2) ?S)"
    by (rule history_after_update [OF wf])
  then have e6: "history_docs ?db' ?c L = rev (take (2 * L) ?S)"
    by (simp add: mult.commute)
  have 1: "length (db_find (chat_query ?c) ?db') \<le> 2 * L"
    by (rule kept_length [OF wf])
  have 2: "set ?db' \<subseteq> set ?db1"
    unfolding update_as_filter [OF wf] by auto
  have 3: "\<forall>d\<in>set ?db1 - set ?db'.
      chat_query ?c d \<and>
      (\<forall>k\<in>set (db_find (chat_query ?c) ?db'). msg_timestamp d \<le> msg_timestamp k)"
  proof (intro ballI conjI)
    fix d assume d: "d \<in> set ?db1 - set ?db'"
    then show "chat_query ?c d"
      unfolding deleted_set [OF wf] by (rule docsToRemove_chat)
    fix k assume "k \<in> set (db_find (chat_query ?c) ?db')"
    with d show "msg_timestamp d \<le> msg_timestamp k"
      by (rule deleted_oldest [OF wf])
  qed
  have 4: "\<forall>c'. c' \<noteq> ?c \<longrightarrow> db_find (chat_query c') ?db' = db_find (chat_query c') ?db"
    using other_chat_untouched [OF wf] by blast
  have 5: "length (getMessageHistory ?db' ?c L) \<le> 2 * L"
    unfolding getMessageHistory_def h by simp
  have 6: "getMessageHistory ?db' ?c L = map render (history_docs ?db' ?c L)"
    by (simp add: getMessageHistory_def)
  have 7: "sorted (map msg_timestamp (history_docs ?db' ?c L))"
    by (rule history_docs_sorted)
  have "mset (history_docs ?db' ?c L) =
      mset (sort_timestamp_desc (db_find (chat_query ?c) ?db'))"
    unfolding h kept_sorted [OF wf] by simp
  then have 8: "mset (history_docs ?db' ?c L) = mset (db_find (chat_query ?c) ?db')"
    by (simp add: sort_timestamp_desc_def)
  have 9: "(\<forall>c'. length (db_find (chat_query c') db0) \<le> 2 * L) \<longrightarrow>
      (\<forall>c'. length (db_find (chat_query c') ?db') \<le> 2 * L)"
    using bound_all_chats [OF assms, of L _ "calls @ [a]"] unfolding step by blast
  show ?thesis
    unfolding Let_def step using e1 e2 e3 e4 e5 e6 1 2 3 4 5 6 7 8 9 by (intro conjI)
qed

theorem history_bounded_after_append_witness:
  "wf_store [] \<and>
   length (db_find (chat_query (js ''chat1''))
     (appends 1 (scenario_appends 10 0 20 0 @
        [\<lparr>app_now = 30, app_place = 1, app_chatId = js ''chat1'',
          app_sender = Some (js ''alice''), app_content = js ''bye'', app_isBot = False\<rparr>]) [])) =
     min (2 * 1) (Suc (length (db_find (chat_query (js ''chat1''))
       (appends 1 (scenario_appends 10 0 20 0) [])))) \<and>
   length (db_find (chat_query (js ''chat1'')) (appends 1 (scenario_appends 10 0 20 0) [])) = 2 \<and>
   getMessageHistory
     (appends 1 (scenario_appends 10 0 20 0 @
        [\<lparr>app_now = 30, app_place = 1, app_chatId = js ''chat1'',
          app_sender = Some (js ''alice''), app_content = js ''bye'', app_isBot = False\<rparr>]) [])
     (js ''chat1'') 1 = [js ''Amelie: hello'', js ''alice: bye'']"
proof -
  let ?a = "\<lparr>app_now = 30, app_place = 1, app_chatId = js ''chat1'',
          app_sender = Some (js ''alice''), app_content = js ''bye'', app_isBot = False\<rparr>"
  have w: "wf_store []" by (simp add: wf_store_def)
  have "length (db_find (chat_query (app_chatId ?a)) (appends 1 (scenario_appends 10 0 20 0 @ [?a]) [])) =
      min (2 * 1) (Suc (length (db_find (chat_query (app_chatId ?a))
        (appends 1 (scenario_appends 10 0 20 0) []))))"
    using history_bounded_after_append [OF w, of 1 "scenario_appends 10 0 20 0" ?a]
    unfolding Let_def by blast
  then have b: "length (db_find (chat_query (js ''chat1''))
      (appends 1 (scenario_appends 10 0 20 0 @ [?a]) [])) =
      min (2 * 1) (Suc (length (db_find (chat_query (js ''chat1''))
        (appends 1 (scenario_appends 10 0 20 0) []))))"
    by simp
  have n: "length (db_find (chat_query (js ''chat1'')) (appends 1 (scenario_appends 10 0 20 0) [])) = 2"
    by (simp add: history_eval)
  have r: "getMessageHistory (appends 1 (scenario_appends 10 0 20 0 @ [?a]) []) (js ''chat1'') 1 =
      [js ''Amelie: hello'', js ''alice: bye'']"
    by (simp add: history_eval)
  from w b n r show ?thesis by (intro conjI)
qed




text \<open>
  C3, as the code has it. After \<^verbatim>\<open>setSystemPrompt(chatId, name, body)\<close>,
  \<^verbatim>\<open>getSystemPrompt(chatId, name)\<close> returns the record of \<open>chatId\<close> and \<open>name\<close> whose text
  is \<^verbatim>\<open>Seu nome ? <name>. \<close> (the \<^verbatim>\<open>?\<close> being \<open>0xE9\<close>) followed by the body as it was given;
  for \<^verbatim>\<open>chat1\<close>, \<^verbatim>\<open>Audiomar\<close> and \<^verbatim>\<open>You describe images.\<close> the text is
  \<^verbatim>\<open>Seu nome ? Audiomar. You describe images.\<close>
\<close>

theorem define_then_fetch:
  "getSystemPrompt (setSystemPrompt db chatId name body) chatId name =
     Some \<lparr>prompt_chatId = chatId, prompt_name = name,
           prompt_text = js ''Seu nome '' @ [0xE9] @ js '' '' @ name @ js ''. '' @ body\<rparr> \<and>
   map_option prompt_text
     (getSystemPrompt
       (setSystemPrompt db (js ''chat1'') (js ''Audiomar'') (js ''You describe images.''))
       (js ''chat1'') (js ''Audiomar'')) =
     Some (js ''Seu nome '' @ [0xE9] @ js '' Audiomar. You describe images.'')"
proof -
  have "getSystemPrompt (setSystemPrompt db c n b) c n =
      Some \<lparr>prompt_chatId = c, prompt_name = n, prompt_text = formattedText n b\<rparr>" for c n b
    unfolding getSystemPrompt_def setSystemPrompt_def Let_def
    by (subst find_db_update) (simp_all add: prompt_query_def split: option.split)
  then show ?thesis
    by (simp add: formattedText_def js_def)
qed

theorem define_then_fetch_witness:
  "getSystemPrompt
     (setSystemPrompt (setSystemPrompt [] (js ''chat1'') (js ''Audiomar'') (js ''old''))
        (js ''chat1'') (js ''Audiomar'') (js ''You describe images.''))
     (js ''chat1'') (js ''Audiomar'') =
   Some \<lparr>prompt_chatId = js ''chat1'', prompt_name = js ''Audiomar'',
         prompt_text = js ''Seu nome '' @ [0xE9] @ js '' Audiomar. You describe images.''\<rparr>"
  using define_then_fetch [of "setSystemPrompt [] (js ''chat1'') (js ''Audiomar'') (js ''old'')"
      "js ''chat1''" "js ''Audiomar''" "js ''You describe images.''"]
  by (simp add: js_def)

text \<open>
  C3, as stated, fails: the text that comes back for \<^verbatim>\<open>chat1\<close>, \<^verbatim>\<open>Audiomar\<close> and
  \<^verbatim>\<open>You describe images.\<close> is not \<^verbatim>\<open>Your name is Audiomar. You describe images.\<close>
\<close>

theorem define_then_fetch_not_english:
  "map_option prompt_text
     (getSystemPrompt
       (setSystemPrompt [] (js ''chat1'') (js ''Audiomar'') (js ''You describe images.''))
       (js ''chat1'') (js ''Audiomar'')) \<noteq>
   Some (js ''Your name is Audiomar. You describe images.'')"
  by (simp add: getSystemPrompt_def setSystemPrompt_def db_findOne_def prompt_query_def
      formattedText_def js_def)

text \<open>
  C4, as the code has it. The lines that \<^verbatim>\<open>getMessageHistory(chatId, limit)\<close> returns are
  \<^verbatim>\<open><sender>: <content>\<close> for the rows \<open>history_docs\<close>, which are rows of the chat, in
  order of their timestamps, no older than any row of the chat left out, and
  \<open>2 * limit\<close> of them (all the rows when the chat has fewer) when \<open>limit\<close> is not \<open>0\<close>;
  a limit of \<open>0\<close> returns all the rows of the chat. The rows of one timestamp that are
  returned come in the reverse of the order in which the store enumerates them. After the
  two appends of the scenario, the second at a later time than the first, with the limit
  \<open>500\<close>, the read returns \<^verbatim>\<open>alice: hi\<close> and \<^verbatim>\<open>Amelie: hello\<close>, wherever the store places
  the two rows.
\<close>

theorem read_newest_chronological:
  "getMessageHistory db c limit =
     map (\<lambda>d. template (msg_sender d) @ js '': '' @ msg_content d) (history_docs db c limit) \<and>
   length (history_docs db c limit) =
     (if limit = 0 then length (db_find (chat_query c) db)
      else min (2 * limit) (length (db_find (chat_query c) db))) \<and>
   sorted (map msg_timestamp (history_docs db c limit)) \<and>
   mset (history_docs db c limit) \<subseteq># mset (db_find (chat_query c) db) \<and>
   (\<forall>x d. x \<in># mset (db_find (chat_query c) db) - mset (history_docs db c limit) \<longrightarrow>
      d \<in> set (history_docs db c limit) \<longrightarrow> msg_timestamp x \<le> msg_timestamp d) \<and>
   (\<exists>n. filter (\<lambda>d. msg_timestamp d = k) (history_docs db c limit) =
      rev (take n (filter (\<lambda>d. msg_timestamp d = k) (db_find (chat_query c) db)))) \<and>
   (t1 < t2 \<longrightarrow>
      getMessageHistory (appends 500 (scenario_appends t1 p1 t2 p2) []) (js ''chat1'') 500 =
        [js ''alice: hi'', js ''Amelie: hello''])"
proof -
  have 1: "getMessageHistory db c limit =
      map (\<lambda>d. template (msg_sender d) @ js '': '' @ msg_content d) (history_docs db c limit)"
    by (simp add: getMessageHistory_def render_def)
  show ?thesis
    using 1 history_docs_length [of db c limit] history_docs_sorted [of db c limit]
      history_docs_subseteq [of db c limit] history_docs_newest [of _ c db limit]
      history_docs_ties [of k db c limit] scenario_read [of t1 t2 p1 p2]
    by blast
qed

theorem read_newest_chronological_witness:
  "(1::nat) < 2 \<and>
   getMessageHistory (appends 500 (scenario_appends 1 0 2 0) []) (js ''chat1'') 500 =
     [js ''alice: hi'', js ''Amelie: hello''] \<and>
   getMessageHistory (appends 500 (scenario_appends 1 0 2 1) []) (js ''chat1'') 500 =
     [js ''alice: hi'', js ''Amelie: hello'']"
  using read_newest_chronological [of "[]" "[]" 0 0 1 2 0 0]
    read_newest_chronological [of "[]" "[]" 0 0 1 2 0 1]
  by simp

text \<open>
  C4, as stated, fails for the limit \<open>0\<close>: the read returns the two rows of the chat,
  not the newest \<open>2 * 0\<close>. And when the two appends of the scenario have the same
  timestamp and the store enumerates the second row after the first (the second
  \<^verbatim>\<open>_id\<close> drawn is the greater one), the read returns the second one first.
\<close>

theorem read_limit_zero_and_ties:
  "getMessageHistory (appends 500 (scenario_appends 1 0 2 0) []) (js ''chat1'') 0 =
     [js ''alice: hi'', js ''Amelie: hello''] \<and>
   \<not> length (getMessageHistory (appends 500 (scenario_appends 1 0 2 0) []) (js ''chat1'') 0)
       \<le> 2 * 0 \<and>
   db_find (chat_query (js ''chat1'')) (appends 500 (scenario_appends 7 0 7 1) []) =
     [\<lparr>msg_id = 1, msg_chatId = js ''chat1'', msg_sender = Some (js ''alice''),
       msg_content = js ''hi'', msg_timestamp = 7, msg_kind = User\<rparr>,
      \<lparr>msg_id = 2, msg_chatId = js ''chat1'', msg_sender = Some (js ''Amelie''),
       msg_content = js ''hello'', msg_timestamp = 7, msg_kind = Bot\<rparr>] \<and>
   getMessageHistory (appends 500 (scenario_appends 7 0 7 1) []) (js ''chat1'') 500 =
     [js ''Amelie: hello'', js ''alice: hi'']"
proof -
  have 1: "getMessageHistory (appends 500 (scenario_appends 1 0 2 0) []) (js ''chat1'') 0 =
     [js ''alice: hi'', js ''Amelie: hello'']"
    by (simp add: history_eval)
  have 2: "getMessageHistory (appends 500 (scenario_appends 7 0 7 1) []) (js ''chat1'') 500 =
     [js ''Amelie: hello'', js ''alice: hi'']"
    by (simp add: history_eval)
  have 3: "db_find (chat_query (js ''chat1'')) (appends 500 (scenario_appends 7 0 7 1) []) =
     [\<lparr>msg_id = 1, msg_chatId = js ''chat1'', msg_sender = Some (js ''alice''),
       msg_content = js ''hi'', msg_timestamp = 7, msg_kind = User\<rparr>,
      \<lparr>msg_id = 2, msg_chatId = js ''chat1'', msg_sender = Some (js ''Amelie''),
       msg_content = js ''hello'', msg_timestamp = 7, msg_kind = Bot\<rparr>]"
    by (simp add: history_eval)
  show ?thesis unfolding 1 2 3 by simp
qed

text \<open>
  C5, as the code has it. \<^verbatim>\<open>sanitizeResponse\<close> never returns the empty string. It removes
  a leading importance tag and the white space after it, then a leading \<^verbatim>\<open>[UserN]:\<close> echo
  and the white space after it, keeps what stands before the first speaker label
  (\<^verbatim>\<open>Usuario:\<close> with its accent, \<^verbatim>\<open>Human:\<close>, or capital letters and a colon), trims it, and
  returns the apology when nothing is left. So the result is the apology or a piece of the
  reply with no white space at either end, and no speaker label is in it. Emojis are not
  removed by it.
\<close>

theorem sanitize_pipeline:
  "sanitizeResponse x \<noteq> [] \<and>
   sanitizeResponse x =
     (if trim (split_first re_speaker
                (replace_anchored re_user (replace_anchored re_importance x))) = []
      then apology
      else trim (split_first re_speaker
                  (replace_anchored re_user (replace_anchored re_importance x)))) \<and>
   (d1 \<noteq> [] \<and> (\<forall>c\<in>set d1. isDigit c) \<and> d2 \<noteq> [] \<and> (\<forall>c\<in>set d2. isDigit c) \<longrightarrow>
      replace_anchored re_importance
        (js ''[Import'' @ [0xE2] @ js ''ncia: '' @ d1 @ js ''.'' @ d2 @ js '']'' @ rest) =
      dropWhile isSpace rest) \<and>
   (rx_match re_importance s = [] \<longrightarrow> replace_anchored re_importance s = s) \<and>
   (d1 \<noteq> [] \<and> (\<forall>c\<in>set d1. isDigit c) \<longrightarrow>
      replace_anchored re_user (js ''[User'' @ d1 @ js '']:'' @ rest) = dropWhile isSpace rest) \<and>
   (rx_match re_user s = [] \<longrightarrow> replace_anchored re_user s = s) \<and>
   split_first re_speaker s @ drop (length (split_first re_speaker s)) s = s \<and>
   \<not> has_match re_speaker (split_first re_speaker s) \<and>
   (drop (length (split_first re_speaker s)) s = [] \<or>
    rx_match re_speaker (drop (length (split_first re_speaker s)) s) \<noteq> []) \<and>
   rx_match re_speaker (js ''Usu'' @ [0xE1] @ js ''rio:'' @ rest) \<noteq> [] \<and>
   rx_match re_speaker (js ''Human:'' @ rest) \<noteq> [] \<and>
   (u \<noteq> [] \<and> (\<forall>c\<in>set u. isUpper c) \<longrightarrow> rx_match re_speaker (u @ js '':'' @ rest) \<noteq> []) \<and>
   \<not> has_match re_speaker (sanitizeResponse x) \<and>
   (sanitizeResponse x = apology \<or>
    (\<exists>p q. x = p @ sanitizeResponse x @ q) \<and>
    \<not> isSpace (hd (sanitizeResponse x)) \<and> \<not> isSpace (last (sanitizeResponse x)))"
proof -
  have 2: "sanitizeResponse x =
     (if trim (split_first re_speaker
                (replace_anchored re_user (replace_anchored re_importance x))) = []
      then apology
      else trim (split_first re_speaker
                  (replace_anchored re_user (replace_anchored re_importance x))))"
    by (simp add: sanitizeResponse_def Let_def)
  have last: "sanitizeResponse x = apology \<or>
    (\<exists>p q. x = p @ sanitizeResponse x @ q) \<and>
    \<not> isSpace (hd (sanitizeResponse x)) \<and> \<not> isSpace (last (sanitizeResponse x))"
  proof (cases "core x = []")
    case True
    then show ?thesis by (simp add: sanitize_core)
  next
    case False
    then have "sanitizeResponse x = core x" by (simp add: sanitize_core)
    moreover have "\<not> isSpace (hd (core x)) \<and> \<not> isSpace (last (core x))"
      using False trim_ends [of "split_first re_speaker
        (replace_anchored re_user (replace_anchored re_importance x))"]
      by (simp add: core_def)
    ultimately show ?thesis using core_substring [of x] by simp
  qed
  show ?thesis
    using sanitize_nonempty [of x] 2 strip_importance [of d1 d2 rest]
      replace_anchored_id [of re_importance s] strip_user [of d1 rest]
      replace_anchored_id [of re_user s] split_first_prefix [of re_speaker s]
      split_first_no_match [of re_speaker s] split_first_rest [of re_speaker s]
      speaker_labels [of rest] speaker_capitals [of u rest] sanitize_no_speaker [of x] last
    by blast
qed

theorem sanitize_pipeline_witness:
  "js ''0'' \<noteq> [] \<and> list_all isDigit (js ''0'') \<and> js ''75'' \<noteq> [] \<and> list_all isDigit (js ''75'') \<and>
   replace_anchored re_importance
     (js ''[Import'' @ [0xE2] @ js ''ncia: '' @ js ''0'' @ js ''.'' @ js ''75'' @ js '']'' @
      js ''  [User3]: Oi! SYSTEM: x'') = js ''[User3]: Oi! SYSTEM: x'' \<and>
   js ''3'' \<noteq> [] \<and> list_all isDigit (js ''3'') \<and>
   replace_anchored re_user (js ''[User'' @ js ''3'' @ js '']:'' @ js '' Oi! SYSTEM: x'') =
     js ''Oi! SYSTEM: x'' \<and>
   js ''SYSTEM'' \<noteq> [] \<and> list_all isUpper (js ''SYSTEM'') \<and>
   rx_match re_speaker (js ''SYSTEM'' @ js '':'' @ js '' x'') \<noteq> [] \<and>
   sanitizeResponse
     (js ''[Import'' @ [0xE2] @ js ''ncia: '' @ js ''0'' @ js ''.'' @ js ''75'' @ js '']'' @
      js ''  [User3]: Oi! SYSTEM: x'') = js ''Oi!''"
proof -
  have d: "js ''0'' \<noteq> [] \<and> (\<forall>c\<in>set (js ''0''). isDigit c) \<and>
      js ''75'' \<noteq> [] \<and> (\<forall>c\<in>set (js ''75''). isDigit c)"
    by (simp add: js_def isDigit_def)
  have d3: "js ''3'' \<noteq> [] \<and> (\<forall>c\<in>set (js ''3''). isDigit c)"
    by (simp add: js_def isDigit_def)
  have u: "js ''SYSTEM'' \<noteq> [] \<and> (\<forall>c\<in>set (js ''SYSTEM''). isUpper c)"
    by (simp add: js_def isUpper_def)
  have 1: "replace_anchored re_importance
     (js ''[Import'' @ [0xE2] @ js ''ncia: '' @ js ''0'' @ js ''.'' @ js ''75'' @ js '']'' @
      js ''  [User3]: Oi! SYSTEM: x'') = dropWhile isSpace (js ''  [User3]: Oi! SYSTEM: x'')"
    using d sanitize_pipeline [of _ "js ''0''" "js ''75''" "js ''  [User3]: Oi! SYSTEM: x''"]
    by blast
  have 2: "replace_anchored re_user (js ''[User'' @ js ''3'' @ js '']:'' @ js '' Oi! SYSTEM: x'') =
      dropWhile isSpace (js '' Oi! SYSTEM: x'')"
    using d3 sanitize_pipeline [of _ "js ''3''" _ "js '' Oi! SYSTEM: x''"]
    by blast
  have 3: "rx_match re_speaker (js ''SYSTEM'' @ js '':'' @ js '' x'') \<noteq> []"
    using u sanitize_pipeline [of _ _ _ "js '' x''" _ "js ''SYSTEM''"]
    by blast
  have 4: "sanitizeResponse
     (js ''[Import'' @ [0xE2] @ js ''ncia: '' @ js ''0'' @ js ''.'' @ js ''75'' @ js '']'' @
      js ''  [User3]: Oi! SYSTEM: x'') = js ''Oi!''"
    by (simp add: sanitizeResponse_def replace_anchored_def re_importance_def re_user_def
        re_speaker_def js_def isDigit_def isSpace_def isUpper_def trim_def apology_def)
  have 5: "dropWhile isSpace (js ''  [User3]: Oi! SYSTEM: x'') = js ''[User3]: Oi! SYSTEM: x''"
    "dropWhile isSpace (js '' Oi! SYSTEM: x'') = js ''Oi! SYSTEM: x''"
    by (simp_all add: js_def isSpace_def)
  show ?thesis
    using d d3 u 1 2 3 4 unfolding 5 by (simp add: list_all_iff)
qed

text \<open>
  C5, as stated, fails: the reply \<^verbatim>\<open>Oi \<close> followed by the emoji \<open>U+1F600\<close> (the surrogate
  pair \<open>D83D DE00\<close>) is returned as it is, with the emoji, which \<^verbatim>\<open>removeEmojis\<close> would
  remove.
\<close>

theorem sanitize_keeps_emoji:
  "sanitizeResponse (js ''Oi '' @ [0xD83D, 0xDE00]) = js ''Oi '' @ [0xD83D, 0xDE00] \<and>
   (0x1F600, [0xD83D, 0xDE00]) \<in>
     set (code_points (sanitizeResponse (js ''Oi '' @ [0xD83D, 0xDE00]))) \<and>
   isEmoji 0x1F600 \<and>
   removeEmojis (js ''Oi '' @ [0xD83D, 0xDE00]) = js ''Oi ''"
proof -
  have 1: "sanitizeResponse (js ''Oi '' @ [0xD83D, 0xDE00]) = js ''Oi '' @ [0xD83D, 0xDE00]"
    by (simp add: sanitizeResponse_def replace_anchored_def re_importance_def re_user_def
        re_speaker_def js_def isDigit_def isSpace_def isUpper_def trim_def apology_def)
  show ?thesis
    unfolding 1
    by (simp add: js_def isEmoji_def removeEmojis_def isHighSurrogate_def isLowSurrogate_def)
qed


text \<open>
  C6. For a chat that has no document in the store of configurations, \<^verbatim>\<open>getConfig\<close>
  returns the static defaults (temperature \<open>0.9\<close>, topK \<open>93\<close>, topP \<open>0.95\<close>,
  maxOutputTokens \<open>1024\<close>, mediaImage and mediaAudio true) with \<^verbatim>\<open>botName\<close> the global
  default name (\<^verbatim>\<open>BOT_NAME\<close> of the environment, or \<^verbatim>\<open>Amelie\<close>) and \<^verbatim>\<open>systemInstructions\<close>
  not set.
\<close>

theorem get_defaults:
  assumes "\<forall>doc\<in>set cdb. cc_chatId doc \<noteq> chatId"
  shows "getConfig env_BOT_NAME cdb pdb chatId =
     \<lparr>temperature = 0.9, topK = 93, topP = 0.95, maxOutputTokens = 1024,
      mediaImage = True, mediaAudio = True, activePrompt = None,
      systemInstructions = None,
      botName = Some (case env_BOT_NAME of
                        None \<Rightarrow> js ''Amelie''
                      | Some n \<Rightarrow> if n = [] then js ''Amelie'' else n)\<rparr>"
proof -
  have "db_findOne (\<lambda>doc. cc_chatId doc = chatId) cdb = None"
    using assms by (simp add: findOne_None)
  then show ?thesis
    by (cases env_BOT_NAME)
      (simp_all add: getConfig_def merge_config_def defaultConfig_def default_bot_name_def)
qed

theorem get_defaults_witness:
  "js ''chat1'' \<notin> set (map cc_chatId (setConfig [] (js ''chat2'') (MediaAudio False))) \<and>
   getConfig None (setConfig [] (js ''chat2'') (MediaAudio False)) [] (js ''chat1'') =
     \<lparr>temperature = 0.9, topK = 93, topP = 0.95, maxOutputTokens = 1024,
      mediaImage = True, mediaAudio = True, activePrompt = None,
      systemInstructions = None, botName = Some (js ''Amelie'')\<rparr>"
proof -
  have n: "js ''chat1'' \<notin> set (map cc_chatId (setConfig [] (js ''chat2'') (MediaAudio False)))"
    by (simp add: setConfig_def empty_config_def js_def)
  then have h: "\<forall>doc\<in>set (setConfig [] (js ''chat2'') (MediaAudio False)). cc_chatId doc \<noteq> js ''chat1''"
    by (metis image_eqI set_map)
  have "getConfig None (setConfig [] (js ''chat2'') (MediaAudio False)) [] (js ''chat1'') =
     \<lparr>temperature = 0.9, topK = 93, topP = 0.95, maxOutputTokens = 1024,
      mediaImage = True, mediaAudio = True, activePrompt = None,
      systemInstructions = None, botName = Some (js ''Amelie'')\<rparr>"
    using get_defaults [OF h, of None "[]"] by simp
  with n show ?thesis by (intro conjI)
qed

text \<open>
  C7. When the store of prompts has no record of \<open>chatId\<close> and \<open>name\<close>,
  \<^verbatim>\<open>setActiveSystemPrompt(chatId, name)\<close> returns \<^verbatim>\<open>false\<close> and the store of configurations,
  hence the active prompt of every chat, is as before.
\<close>

theorem activate_missing:
  assumes "\<forall>p\<in>set pdb. \<not> (prompt_chatId p = chatId \<and> prompt_name p = name)"
  shows "setActiveSystemPrompt pdb cdb chatId name = (False, cdb)"
proof -
  have "getSystemPrompt pdb chatId name = None"
    using assms by (simp add: getSystemPrompt_def findOne_None prompt_query_def)
  then show ?thesis by (simp add: setActiveSystemPrompt_def)
qed

theorem activate_missing_witness:
  "prompt_name \<lparr>prompt_chatId = js ''chat1'', prompt_name = js ''Audiomar'',
                 prompt_text = formattedText (js ''Audiomar'') (js ''x'')\<rparr> \<noteq> js ''Ghost'' \<and>
   setActiveSystemPrompt (setSystemPrompt [] (js ''chat1'') (js ''Audiomar'') (js ''x''))
     (setConfig [] (js ''chat1'') (ActivePrompt (Some (js ''Audiomar'')))) (js ''chat1'') (js ''Ghost'') =
   (False, setConfig [] (js ''chat1'') (ActivePrompt (Some (js ''Audiomar''))))"
proof -
  have h: "\<forall>p\<in>set (setSystemPrompt [] (js ''chat1'') (js ''Audiomar'') (js ''x'')).
      \<not> (prompt_chatId p = js ''chat1'' \<and> prompt_name p = js ''Ghost'')"
    by (simp add: setSystemPrompt_def js_def)
  have "prompt_name \<lparr>prompt_chatId = js ''chat1'', prompt_name = js ''Audiomar'',
                 prompt_text = formattedText (js ''Audiomar'') (js ''x'')\<rparr> \<noteq> js ''Ghost''"
    by (simp add: js_def)
  then show ?thesis
    using activate_missing [OF h, of "setConfig [] (js ''chat1'') (ActivePrompt (Some (js ''Audiomar'')))"]
    by simp
qed

text \<open>
  C8. In a chat where \<^verbatim>\<open>mediaAudio\<close> is enabled, an audio message whose data is longer than
  \<open>20 * 1024 * 1024\<close> makes \<^verbatim>\<open>handleAudioMessage\<close> send the reply about the limit of 20MB and
  nothing else: the stores, the history of messages among them, are as before and no
  request is made to the model. (The data is at least as long as the payload, so this
  holds for every payload of more than 20 MB.)
\<close>

theorem audio_size_guard:
  assumes "mediaAudio (getConfig env_BOT_NAME (configDb w) (promptsDb w) chatId)"
    and "20 * 1024 * 1024 < length (media_data audioData)"
  shows "handleAudioMessage MAX_HISTORY env_BOT_NAME generate t1 p1 t2 p2 msg audioData chatId w =
           w\<lparr>replies := replies w @ [audio_too_big]\<rparr> \<and>
         messagesDb (handleAudioMessage MAX_HISTORY env_BOT_NAME generate t1 p1 t2 p2 msg audioData chatId w) =
           messagesDb w \<and>
         modelCalls (handleAudioMessage MAX_HISTORY env_BOT_NAME generate t1 p1 t2 p2 msg audioData chatId w) =
           modelCalls w"
proof -
  have "real (length (media_data audioData)) / (1024 * 1024) > 20"
    using assms(2) by (simp add: field_simps)
  then have "handleAudioMessage MAX_HISTORY env_BOT_NAME generate t1 p1 t2 p2 msg audioData chatId w =
      reply audio_too_big w"
    using assms(1) by (simp add: handleAudioMessage_def Let_def)
  then show ?thesis by (simp add: reply_def)
qed

theorem audio_size_guard_witness:
  "mediaAudio (getConfig None (configDb empty_world) (promptsDb empty_world) (js ''chat1'')) \<and>
   20 * 1024 * 1024 <
     length (media_data \<lparr>media_mimetype = js ''audio/mpeg'',
                         media_data = replicate (21 * 1024 * 1024) 65\<rparr>) \<and>
   handleAudioMessage 500 None (\<lambda>r. Some (js ''ok'')) 1 0 2 1
     \<lparr>in_body = [], in_author = None, in_from = js ''alice''\<rparr>
     \<lparr>media_mimetype = js ''audio/mpeg'', media_data = replicate (21 * 1024 * 1024) 65\<rparr>
     (js ''chat1'') empty_world =
   \<lparr>messagesDb = [], promptsDb = [], configDb = [], replies = [audio_too_big], modelCalls = []\<rparr>"
proof -
  let ?a = "\<lparr>media_mimetype = js ''audio/mpeg'', media_data = replicate (21 * 1024 * 1024) (65::nat)\<rparr>"
  have h1: "mediaAudio (getConfig None (configDb empty_world) (promptsDb empty_world) (js ''chat1''))"
    by (simp add: getConfig_def merge_config_def defaultConfig_def empty_world_def db_findOne_def)
  have h2: "20 * 1024 * 1024 < length (media_data ?a)"
    by simp
  show ?thesis
    using h1 h2 audio_size_guard [OF h1 h2, of 500 "\<lambda>r. Some (js ''ok'')" 1 0 2 1
        "\<lparr>in_body = [], in_author = None, in_from = js ''alice''\<rparr>"]
    by (simp add: empty_world_def)
qed

text \<open>
  C9. \<^verbatim>\<open>handlePromptCommand\<close> leaves the messages as they are, whatever its arguments:
  \<^verbatim>\<open>set\<close> with a name and a text stores the prompt with \<^verbatim>\<open>setSystemPrompt\<close> and changes no
  message, and \<^verbatim>\<open>clearChatOnInstructionChange\<close> does nothing.
\<close>

theorem prompt_command_keeps_history:
  "messagesDb (handlePromptCommand args chatId w) = messagesDb w \<and>
   messagesDb (handlePromptCommand (js ''set'' # name # word # words) chatId w) = messagesDb w \<and>
   (name \<noteq> [] \<longrightarrow>
    promptsDb (handlePromptCommand (js ''set'' # name # word # words) chatId w) =
      setSystemPrompt (promptsDb w) chatId name (join (js '' '') (word # words))) \<and>
   clearChatOnInstructionChange chatId w = w"
proof -
  have "messagesDb (handlePromptCommand a chatId w) = messagesDb w" for a
    unfolding handlePromptCommand_def Let_def
    by (simp add: messagesDb_reply messagesDb_prompt_list split: option.split)
  moreover have "name \<noteq> [] \<longrightarrow>
    promptsDb (handlePromptCommand (js ''set'' # name # word # words) chatId w) =
      setSystemPrompt (promptsDb w) chatId name (join (js '' '') (word # words))"
    by (simp add: handlePromptCommand_def Let_def reply_def)
  ultimately show ?thesis
    by (simp add: clearChatOnInstructionChange_def)
qed

theorem prompt_command_keeps_history_witness:
  "js ''Audiomar'' \<noteq> [] \<and>
   promptsDb (handlePromptCommand [js ''set'', js ''Audiomar'', js ''You'', js ''describe'', js ''images.'']
      (js ''chat1'') (empty_world\<lparr>messagesDb := appends 500 (scenario_appends 1 0 2 1) []\<rparr>)) =
     setSystemPrompt [] (js ''chat1'') (js ''Audiomar'') (js ''You describe images.'') \<and>
   messagesDb (handlePromptCommand [js ''set'', js ''Audiomar'', js ''You'', js ''describe'', js ''images.'']
      (js ''chat1'') (empty_world\<lparr>messagesDb := appends 500 (scenario_appends 1 0 2 1) []\<rparr>)) =
     appends 500 (scenario_appends 1 0 2 1) []"
proof -
  have n: "js ''Audiomar'' \<noteq> []" by (simp add: js_def)
  have j: "join (js '' '') [js ''You'', js ''describe'', js ''images.''] = js ''You describe images.''"
    by (simp add: js_def)
  show ?thesis
    using n prompt_command_keeps_history [of "[js ''set'', js ''Audiomar'', js ''You'', js ''describe'', js ''images.'']"
        "js ''chat1''" "empty_world\<lparr>messagesDb := appends 500 (scenario_appends 1 0 2 1) []\<rparr>"
        "js ''Audiomar''" "js ''You''" "[js ''describe'', js ''images.'']"]
    unfolding j by (simp add: empty_world_def)
qed

text \<open>
  C10. When the document of a chat has an \<^verbatim>\<open>activePrompt\<close> that is a name (a string that is
  not empty) and the store of prompts has no record of the chat and that name,
  \<^verbatim>\<open>getConfig\<close> returns a configuration with neither \<^verbatim>\<open>botName\<close> nor \<^verbatim>\<open>systemInstructions\<close>.
\<close>

theorem dangling_active_prompt:
  assumes "db_findOne (\<lambda>doc. cc_chatId doc = chatId) cdb = Some doc"
    and "cc_activePrompt doc = Some name" and "name \<noteq> []"
    and "\<forall>p\<in>set pdb. \<not> (prompt_chatId p = chatId \<and> prompt_name p = name)"
  shows "botName (getConfig env_BOT_NAME cdb pdb chatId) = None \<and>
         systemInstructions (getConfig env_BOT_NAME cdb pdb chatId) = None"
proof -
  have "getSystemPrompt pdb chatId name = None"
    using assms(4) by (simp add: getSystemPrompt_def findOne_None prompt_query_def)
  then show ?thesis
    using assms(1-3) by (simp add: getConfig_def merge_config_def)
qed

theorem dangling_active_prompt_witness:
  "db_findOne (\<lambda>doc. cc_chatId doc = js ''chat1'')
     (setConfig [] (js ''chat1'') (ActivePrompt (Some (js ''Ghost'')))) =
     Some ((empty_config (js ''chat1''))\<lparr>cc_activePrompt := Some (js ''Ghost'')\<rparr>) \<and>
   js ''Ghost'' \<noteq> [] \<and>
   botName (getConfig None (setConfig [] (js ''chat1'') (ActivePrompt (Some (js ''Ghost'')))) []
     (js ''chat1'')) = None \<and>
   systemInstructions (getConfig None (setConfig [] (js ''chat1'') (ActivePrompt (Some (js ''Ghost'')))) []
     (js ''chat1'')) = None"
proof -
  let ?cdb = "setConfig [] (js ''chat1'') (ActivePrompt (Some (js ''Ghost'')))"
  let ?doc = "(empty_config (js ''chat1''))\<lparr>cc_activePrompt := Some (js ''Ghost'')\<rparr>"
  have 1: "db_findOne (\<lambda>doc. cc_chatId doc = js ''chat1'') ?cdb = Some ?doc"
    by (simp add: setConfig_def db_findOne_def empty_config_def)
  have 2: "cc_activePrompt ?doc = Some (js ''Ghost'')" by simp
  have 3: "js ''Ghost'' \<noteq> []" by (simp add: js_def)
  have 4: "\<forall>p\<in>set []. \<not> (prompt_chatId p = js ''chat1'' \<and> prompt_name p = js ''Ghost'')" by simp
  from 1 3 dangling_active_prompt [OF 1 2 3 4, of None] show ?thesis by (intro conjI) simp_all
qed

end
